theory Spec2Isabelle
  imports Main "HOL-Library.Product_Lexorder"
begin

section \<open>Cards and the deck\<close>

text \<open>
  A card of \<^verbatim>\<open>server.js\<close> is an object \<^verbatim>\<open>{rank, suit, value, symbol}\<close> built only by
  \<^verbatim>\<open>createDeck\<close>, where \<^verbatim>\<open>value = getCardValue(rank)\<close> and \<^verbatim>\<open>symbol = getCardSymbol(suit)\<close>.
  The two derived fields are functions of \<open>rank\<close> and \<open>suit\<close>, so a card is modelled by its
  rank and suit, and \<open>cvalue\<close> reads the stored \<^verbatim>\<open>value\<close> field. The rank and suit strings of
  the source are the constructors below.
\<close>

datatype suit = Hearts | Diamonds | Clubs | Spades

datatype rank = R2 | R3 | R4 | R5 | R6 | R7 | R8 | R9 | R10 | RJ | RQ | RK | RA

datatype card = Card (rank: rank) (suit: suit)

fun getCardValue :: "rank \<Rightarrow> int" where
  "getCardValue R2 = 2"
| "getCardValue R3 = 3"
| "getCardValue R4 = 4"
| "getCardValue R5 = 5"
| "getCardValue R6 = 6"
| "getCardValue R7 = 7"
| "getCardValue R8 = 8"
| "getCardValue R9 = 9"
| "getCardValue R10 = 10"
| "getCardValue RJ = 11"
| "getCardValue RQ = 12"
| "getCardValue RK = 13"
| "getCardValue RA = 14"

definition cvalue :: "card \<Rightarrow> int" where
  "cvalue c = getCardValue (rank c)"

definition createDeck :: "card list" where
  "createDeck =
     concat (map (\<lambda>s. map (\<lambda>r. Card r s) [R2, R3, R4, R5, R6, R7, R8, R9, R10, RJ, RQ, RK, RA])
                 [Hearts, Diamonds, Clubs, Spades])"

section \<open>Array.prototype.sort\<close>

text \<open>
  \<^verbatim>\<open>xs.sort(cmp)\<close> is a stable sort: of two elements it keeps the earlier one first unless
  the comparator returns a positive number for them. For a comparator that is a total
  preorder the result of every stable sort is the same list; it is computed here by
  insertion from the right.
\<close>

fun insertBy :: "('a \<Rightarrow> 'a \<Rightarrow> int) \<Rightarrow> 'a \<Rightarrow> 'a list \<Rightarrow> 'a list" where
  "insertBy cmp x [] = [x]"
| "insertBy cmp x (y # ys) = (if cmp x y \<le> 0 then x # y # ys else y # insertBy cmp x ys)"

definition jsSort :: "('a \<Rightarrow> 'a \<Rightarrow> int) \<Rightarrow> 'a list \<Rightarrow> 'a list" where
  "jsSort cmp xs = foldr (insertBy cmp) xs []"

section \<open>Hand evaluation\<close>

datatype handType = HighCard | Pair | Straight | Flush | StraightFlush | ThreeOfAKind

text \<open>
  The object returned by \<^verbatim>\<open>evaluateHand\<close>: \<open>htype\<close> is its \<^verbatim>\<open>type\<close> string and \<open>hvalue\<close>
  its \<^verbatim>\<open>value\<close>. The \<^verbatim>\<open>description\<close> string is a display label that no decision of the
  server reads; it is left out.
\<close>

record handEval =
  htype :: handType
  hvalue :: int

text \<open>
  \<^verbatim>\<open>evaluateHand\<close> sorts the cards by descending value and reads \<^verbatim>\<open>sorted[0..2]\<close>;
  \<open>classify\<close> is the body of the function after the sort. \<open>evaluateHand\<close> is the function on
  hands of three cards, where every value is an integer; it is \<open>None\<close> on a list of another
  length. There the source computes with \<^verbatim>\<open>undefined\<close> and \<^verbatim>\<open>NaN\<close>: that is
  \<open>evaluateHandAny\<close> below, which agrees with \<open>evaluateHand\<close> on three cards.
\<close>

definition classify :: "card \<Rightarrow> card \<Rightarrow> card \<Rightarrow> handEval" where
  "classify c0 c1 c2 =
     (let v0 = cvalue c0; v1 = cvalue c1; v2 = cvalue c2 in
      if rank c0 = rank c1 \<and> rank c1 = rank c2
      then \<lparr>htype = ThreeOfAKind, hvalue = v0 * 100\<rparr>
      else
        (let isSameSuit = (suit c0 = suit c0 \<and> suit c1 = suit c0 \<and> suit c2 = suit c0);
             isStraight = ((v0 - v1 = 1 \<and> v1 - v2 = 1) \<or> (v0 = 14 \<and> v1 = 3 \<and> v2 = 2))
         in
         if isSameSuit \<and> isStraight
         then \<lparr>htype = StraightFlush, hvalue = v0 * 1000\<rparr>
         else if isSameSuit
         then \<lparr>htype = Flush, hvalue = v0 * 10000 + v1 * 100 + v2\<rparr>
         else if isStraight
         then \<lparr>htype = Straight, hvalue = v0 * 100\<rparr>
         else if rank c0 = rank c1
         then \<lparr>htype = Pair, hvalue = v0 * 100 + v2\<rparr>
         else if rank c1 = rank c2
         then \<lparr>htype = Pair, hvalue = v1 * 100 + v0\<rparr>
         else \<lparr>htype = HighCard, hvalue = v0 * 10000 + v1 * 100 + v2\<rparr>))"

definition evaluateHand :: "card list \<Rightarrow> handEval option" where
  "evaluateHand cards =
     (case jsSort (\<lambda>a b. cvalue b - cvalue a) cards of
        [c0, c1, c2] \<Rightarrow> Some (classify c0 c1 c2)
      | _ \<Rightarrow> None)"

fun types :: "handType \<Rightarrow> int" where
  "types HighCard = 1"
| "types Pair = 2"
| "types Straight = 3"
| "types Flush = 4"
| "types StraightFlush = 5"
| "types ThreeOfAKind = 6"

definition compareHands :: "handEval \<Rightarrow> handEval \<Rightarrow> int" where
  "compareHands h1 h2 =
     (if types (htype h1) > types (htype h2) then 1
      else if types (htype h1) < types (htype h2) then - 1
      else if hvalue h1 > hvalue h2 then 1
      else if hvalue h1 < hvalue h2 then - 1
      else 0)"


section \<open>JavaScript numbers, and hands of any length\<close>

text \<open>
  A JavaScript number that is an integer or \<^verbatim>\<open>NaN\<close>. Arithmetic with \<^verbatim>\<open>NaN\<close> (and with
  \<^verbatim>\<open>undefined\<close>, which arithmetic turns into \<^verbatim>\<open>NaN\<close>) gives \<^verbatim>\<open>NaN\<close>; every comparison with
  \<^verbatim>\<open>NaN\<close>, also \<^verbatim>\<open>===\<close>, is false.
\<close>

datatype jsnum = Num int | NaN

fun jsAdd :: "jsnum \<Rightarrow> jsnum \<Rightarrow> jsnum" where
  "jsAdd (Num a) (Num b) = Num (a + b)"
| "jsAdd a b = NaN"

fun jsSub :: "jsnum \<Rightarrow> jsnum \<Rightarrow> jsnum" where
  "jsSub (Num a) (Num b) = Num (a - b)"
| "jsSub a b = NaN"

fun jsMul :: "jsnum \<Rightarrow> jsnum \<Rightarrow> jsnum" where
  "jsMul (Num a) (Num b) = Num (a * b)"
| "jsMul a b = NaN"

text \<open>\<^verbatim>\<open>Math.floor(x / 2)\<close>\<close>

fun jsFloorHalf :: "jsnum \<Rightarrow> jsnum" where
  "jsFloorHalf (Num a) = Num (a div 2)"
| "jsFloorHalf NaN = NaN"

text \<open>\<^verbatim>\<open>a < b\<close> and \<^verbatim>\<open>a === b\<close>\<close>

fun jsLess :: "jsnum \<Rightarrow> jsnum \<Rightarrow> bool" where
  "jsLess (Num a) (Num b) = (a < b)"
| "jsLess a b = False"

fun jsEq :: "jsnum \<Rightarrow> jsnum \<Rightarrow> bool" where
  "jsEq (Num a) (Num b) = (a = b)"
| "jsEq a b = False"

text \<open>
  \<^verbatim>\<open>xs[i]\<close>: \<open>None\<close> is \<^verbatim>\<open>undefined\<close>. On the sorted cards \<open>cs\<close>, \<open>valueAt\<close> is
  \<^verbatim>\<open>values[i]\<close> as the arithmetic and the
  comparisons of \<^verbatim>\<open>evaluateHand\<close> see it (an \<^verbatim>\<open>undefined\<close> entry behaves there as \<^verbatim>\<open>NaN\<close>);
  \<open>rankAt\<close> is \<^verbatim>\<open>ranks[i]\<close>, and \<^verbatim>\<open>undefined === undefined\<close> is true.
\<close>

definition nthOpt :: "'a list \<Rightarrow> nat \<Rightarrow> 'a option" where
  "nthOpt xs i = (if i < length xs then Some (xs ! i) else None)"

definition valueAt :: "card list \<Rightarrow> nat \<Rightarrow> jsnum" where
  "valueAt cs i = (case nthOpt cs i of None \<Rightarrow> NaN | Some c \<Rightarrow> Num (cvalue c))"

definition rankAt :: "card list \<Rightarrow> nat \<Rightarrow> rank option" where
  "rankAt cs i = map_option rank (nthOpt cs i)"

text \<open>
  The object \<^verbatim>\<open>evaluateHand\<close> returns for an array of any length: the hand of a player is
  empty until the first hand is dealt, and the handlers do not test the phase of the game.
\<close>

record handEvalAny =
  anyType :: handType
  anyValue :: jsnum

definition evaluateHandAny :: "card list \<Rightarrow> handEvalAny" where
  "evaluateHandAny cards =
     (let cs = jsSort (\<lambda>a b. cvalue b - cvalue a) cards;
          v0 = valueAt cs 0; v1 = valueAt cs 1; v2 = valueAt cs 2
      in
      if rankAt cs 0 = rankAt cs 1 \<and> rankAt cs 1 = rankAt cs 2
      then \<lparr>anyType = ThreeOfAKind, anyValue = jsMul v0 (Num 100)\<rparr>
      else
        (let isSameSuit = list_all (\<lambda>c. Some (suit c) = map_option suit (nthOpt cs 0)) cs;
             isStraight = ((jsEq (jsSub v0 v1) (Num 1) \<and> jsEq (jsSub v1 v2) (Num 1))
                           \<or> (jsEq v0 (Num 14) \<and> jsEq v1 (Num 3) \<and> jsEq v2 (Num 2)))
         in
         if isSameSuit \<and> isStraight
         then \<lparr>anyType = StraightFlush, anyValue = jsMul v0 (Num 1000)\<rparr>
         else if isSameSuit
         then \<lparr>anyType = Flush,
                anyValue = jsAdd (jsAdd (jsMul v0 (Num 10000)) (jsMul v1 (Num 100))) v2\<rparr>
         else if isStraight
         then \<lparr>anyType = Straight, anyValue = jsMul v0 (Num 100)\<rparr>
         else if rankAt cs 0 = rankAt cs 1
         then \<lparr>anyType = Pair, anyValue = jsAdd (jsMul v0 (Num 100)) v2\<rparr>
         else if rankAt cs 1 = rankAt cs 2
         then \<lparr>anyType = Pair, anyValue = jsAdd (jsMul v1 (Num 100)) v0\<rparr>
         else \<lparr>anyType = HighCard,
                anyValue = jsAdd (jsAdd (jsMul v0 (Num 10000)) (jsMul v1 (Num 100))) v2\<rparr>))"

text \<open>
  \<^verbatim>\<open>compareHands\<close> on such objects: with a value that is \<^verbatim>\<open>NaN\<close> both value tests are false
  and hands of one category compare 0.
\<close>

definition compareHandsAny :: "handEvalAny \<Rightarrow> handEvalAny \<Rightarrow> int" where
  "compareHandsAny h1 h2 =
     (if types (anyType h1) > types (anyType h2) then 1
      else if types (anyType h1) < types (anyType h2) then - 1
      else if jsLess (anyValue h2) (anyValue h1) then 1
      else if jsLess (anyValue h1) (anyValue h2) then - 1
      else 0)"


section \<open>Players and rooms\<close>

text \<open>
  The player objects of \<^verbatim>\<open>create-room\<close> and \<^verbatim>\<open>join-room\<close>. \<open>pid\<close> is the field \<^verbatim>\<open>id\<close> (the
  socket id). \<^verbatim>\<open>actedThisRound\<close> is absent until \<^verbatim>\<open>startNewHand\<close> sets it; the source reads
  it only as a truth value, so absent is \<open>False\<close>.
\<close>

record player =
  pid :: string
  name :: string
  money :: int
  hand :: "card list"
  viewedCards :: bool
  folded :: bool
  currentBet :: int
  position :: nat
  connected :: bool
  allIn :: bool
  actedThisRound :: bool

text \<open>An entry of \<^verbatim>\<open>room.betHistory\<close> (its timestamp is left out).\<close>

record betEntry =
  playerId :: string
  playerName :: string
  declaredAmount :: int
  actualAmount :: int
  viewedAtBet :: bool

datatype gameState = Waiting | Playing | Ended

text \<open>
  The room object. \<^verbatim>\<open>players\<close> is an array of player objects that is never reordered or
  shortened, so a seat index names a player object. \<^verbatim>\<open>start-game\<close> sets
  \<^verbatim>\<open>tournamentPlayers = [...room.players]\<close>, an array of references to the same objects: it
  is modelled as the list of their seat indices, and \<^verbatim>\<open>tp.money\<close> reads the money of the
  player at that seat. \<^verbatim>\<open>createdAt\<close> and the constant \<^verbatim>\<open>settings\<close> are never read and are left
  out. \<^verbatim>\<open>handsPlayed\<close> is read as \<^verbatim>\<open>room.handsPlayed || 0\<close>, so an absent value is 0.
\<close>

record room =
  code :: string
  host :: string
  players :: "player list"
  gameState :: gameState
  currentRound :: int
  dealerIndex :: int
  pot :: int
  deck :: "card list"
  currentTurn :: int
  minBet :: int
  tournamentRound :: int
  tournamentPlayers :: "nat list"
  betHistory :: "betEntry list"
  lastRaise :: "string option"
  handsPlayed :: int
  startingPlayerCount :: int

section \<open>Turn order\<close>

text \<open>
  The JavaScript remainder \<^verbatim>\<open>a % b\<close> for \<open>b > 0\<close>: it takes the sign of \<open>a\<close>.
\<close>

definition jsRem :: "int \<Rightarrow> int \<Rightarrow> int" where
  "jsRem a b = (if a < 0 then - ((- a) mod b) else a mod b)"

text \<open>
  Both seat scans run the same loop: from \<open>idx\<close>, at most \<open>n\<close> seats, cyclically, returning
  the first seat whose player passes the test and -1 when none does. \<open>scanSeats\<close> is that
  loop, with the number of iterations left as its last argument.
\<close>

fun scanSeats :: "(player \<Rightarrow> bool) \<Rightarrow> player list \<Rightarrow> nat \<Rightarrow> nat \<Rightarrow> int" where
  "scanSeats ok ps idx 0 = - 1"
| "scanSeats ok ps idx (Suc k) =
     (if ok (ps ! idx) then int idx else scanSeats ok ps ((idx + 1) mod length ps) k)"

definition canAct :: "player \<Rightarrow> bool" where
  "canAct p = (\<not> folded p \<and> money p > 0 \<and> \<not> allIn p)"

definition isActive :: "player \<Rightarrow> bool" where
  "isActive p = (\<not> folded p \<and> money p > 0)"

definition getNextActivePlayerIndex :: "room \<Rightarrow> nat \<Rightarrow> int" where
  "getNextActivePlayerIndex room startIndex =
     (let n = length (players room) in
      if n = 0 then - 1
      else scanSeats canAct (players room) ((startIndex + 1) mod n) n)"

text \<open>
  \<^verbatim>\<open>dealerIndex\<close> is -1 in a new room and \<^verbatim>\<open>(dealerIndex + 1) % n\<close> afterwards, so
  \<^verbatim>\<open>dealerIndex + 1\<close> is never negative and the first seat read is in range. (For a
  smaller \<^verbatim>\<open>dealerIndex\<close> the source would read \<^verbatim>\<open>players[idx]\<close> at a negative index and
  throw; the theorems below assume \<open>- 1 \<le> dealerIndex\<close>.)
\<close>

definition getFirstPlayerAfterDealer :: "room \<Rightarrow> int" where
  "getFirstPlayerAfterDealer room =
     (if length (players room) = 0 then - 1
      else scanSeats isActive (players room)
             (nat (jsRem (dealerIndex room + 1) (int (length (players room)))))
             (length (players room)))"

section \<open>Starting a hand\<close>

text \<open>
  \<^verbatim>\<open>for (let i = 0; i < 3; i++) if (room.deck.length) p.hand.push(room.deck.pop())\<close>:
  \<open>dealCards k h d\<close> runs \<open>k\<close> iterations on the hand \<open>h\<close> and the deck \<open>d\<close>.
\<close>

fun dealCards :: "nat \<Rightarrow> card list \<Rightarrow> card list \<Rightarrow> card list \<times> card list" where
  "dealCards 0 h d = (h, d)"
| "dealCards (Suc k) h d =
     (if d \<noteq> [] then dealCards k (h @ [last d]) (butlast d) else dealCards k h d)"

text \<open>The body of the \<^verbatim>\<open>forEach\<close> of \<^verbatim>\<open>startNewHand\<close>, on one player, the pot and the deck.\<close>

definition resetPlayer :: "player \<Rightarrow> int \<Rightarrow> card list \<Rightarrow> player \<times> int \<times> card list" where
  "resetPlayer p potNow d =
     (let p0 = p\<lparr>hand := [], viewedCards := False, folded := False, currentBet := 0,
                 allIn := False, actedThisRound := False\<rparr>
      in
      if money p0 > 0
      then (let ante = min 100 (money p0);
                (h, d') = dealCards 3 (hand p0) d
            in (p0\<lparr>money := money p0 - ante, currentBet := ante, hand := h\<rparr>, potNow + ante, d'))
      else (p0\<lparr>folded := True\<rparr>, potNow, d))"

fun resetPlayers :: "player list \<Rightarrow> int \<Rightarrow> card list \<Rightarrow> player list \<times> int \<times> card list" where
  "resetPlayers [] potNow d = ([], potNow, d)"
| "resetPlayers (p # ps) potNow d =
     (case resetPlayer p potNow d of
        (p', pot', d') \<Rightarrow>
          (case resetPlayers ps pot' d' of
             (ps', pot'', d'') \<Rightarrow> (p' # ps', pot'', d'')))"


definition startNewHand :: "room \<Rightarrow> card list \<Rightarrow> room" where
  "startNewHand room shuffled =
     (case resetPlayers (players room) 0 shuffled of
        (ps, potNow, d) \<Rightarrow>
          (let r1 = room\<lparr>pot := potNow, minBet := 100, currentRound := 1, betHistory := [],
                         lastRaise := None, deck := d, players := ps\<rparr>;
               r2 = r1\<lparr>dealerIndex := jsRem (dealerIndex r1 + 1) (int (length (players r1)))\<rparr>;
               r3 = r2\<lparr>currentTurn := getFirstPlayerAfterDealer r2\<rparr>
           in r3\<lparr>handsPlayed := handsPlayed r3 + 1\<rparr>))"

section \<open>Round and hand completion\<close>

definition isHandFinished :: "room \<Rightarrow> bool" where
  "isHandFinished room =
     (let active = filter isActive (players room) in
      if length active \<le> 1 then True
      else length (filter (\<lambda>p. \<not> allIn p \<and> money p > 0) active) = 0)"

definition isRoundComplete :: "room \<Rightarrow> bool" where
  "isRoundComplete room =
     (let acting = filter canAct (players room) in
      if length acting = 0 then True else list_all actedThisRound acting)"

definition checkAndAdvanceRound :: "room \<Rightarrow> bool \<times> room" where
  "checkAndAdvanceRound room =
     (let active = filter isActive (players room) in
      if length active \<le> 1 then (False, room)
      else (let r1 = room\<lparr>players := map (\<lambda>p. p\<lparr>actedThisRound := False\<rparr>) (players room)\<rparr>;
                r2 = r1\<lparr>currentRound := currentRound r1 + 1\<rparr>
            in (True, r2\<lparr>currentTurn := getFirstPlayerAfterDealer r2\<rparr>)))"

section \<open>Resolving a hand\<close>

text \<open>
  The object returned by \<^verbatim>\<open>resolveHand\<close>; players are named by their seats.
\<close>

record handResult =
  winner :: "nat option"
  eliminated :: "nat list"
  resultPot :: int

text \<open>\<^verbatim>\<open>active.map(p => ({ player: p, eval: evaluateHand(p.hand) }))\<close>\<close>

fun evaluateAll :: "player list \<Rightarrow> nat list \<Rightarrow> (nat \<times> handEval) list option" where
  "evaluateAll ps [] = Some []"
| "evaluateAll ps (i # is) =
     (case evaluateHand (hand (ps ! i)) of
        None \<Rightarrow> None
      | Some e \<Rightarrow> (case evaluateAll ps is of None \<Rightarrow> None | Some es \<Rightarrow> Some ((i, e) # es)))"

text \<open>\<^verbatim>\<open>winners.forEach(w => w.money += share)\<close>\<close>

fun credit :: "player list \<Rightarrow> nat list \<Rightarrow> int \<Rightarrow> player list" where
  "credit ps [] share = ps"
| "credit ps (w # ws) share = credit (ps[w := (ps ! w)\<lparr>money := money (ps ! w) + share\<rparr>]) ws share"

text \<open>
  The winners of \<^verbatim>\<open>resolveHand\<close>, as seats: the only active player, or, of several, those
  whose \<^verbatim>\<open>eval.value\<close> equals the \<^verbatim>\<open>eval.value\<close> of the first entry after the sort.
\<close>

definition findWinners :: "room \<Rightarrow> nat list \<Rightarrow> nat list option" where
  "findWinners room active =
     (if length active = 1 then Some [hd active]
      else (case evaluateAll (players room) active of
              None \<Rightarrow> None
            | Some evaluated \<Rightarrow>
                (let sorted = jsSort (\<lambda>a b. compareHands (snd b) (snd a)) evaluated;
                     bestScore = hvalue (snd (hd sorted))
                 in Some (map fst (filter (\<lambda>e. hvalue (snd e) = bestScore) sorted)))))"

definition resolveHand :: "room \<Rightarrow> (handResult \<times> room) option" where
  "resolveHand room =
     (let active = filter (\<lambda>i. isActive (players room ! i)) [0..<length (players room)] in
      if length active = 0
      then Some (\<lparr>winner = None, eliminated = [], resultPot = pot room\<rparr>, room)
      else
        (case findWinners room active of
           None \<Rightarrow> None
         | Some winners \<Rightarrow>
             (let ps = (if length winners > 1
                        then credit (players room) winners (pot room div int (length winners))
                        else if length winners = 1
                        then credit (players room) [hd winners] (pot room)
                        else players room);
                  room' = room\<lparr>players := ps\<rparr>
              in Some (\<lparr>winner = (case winners of [] \<Rightarrow> None | w # _ \<Rightarrow> Some w),
                         eliminated = filter (\<lambda>i. money (ps ! i) \<le> 0) [0..<length ps],
                         resultPot = pot room\<rparr>, room'))))"

section \<open>After a hand: the tournament\<close>

text \<open>
  What \<^verbatim>\<open>afterHandEnded\<close> does besides changing the room: it emits \<^verbatim>\<open>tournament-ended\<close> with
  the champion and the rankings and returns \<^verbatim>\<open>true\<close>, or it sets the 3-second timer whose
  callback starts the next hand and returns \<^verbatim>\<open>false\<close>.
\<close>

datatype outcome = TournamentEnded "nat option" "nat list" | NextHandScheduled

definition pruneRoster :: "room \<Rightarrow> room" where
  "pruneRoster room =
     room\<lparr>tournamentPlayers := filter (\<lambda>tp. money (players room ! tp) > 0) (tournamentPlayers room)\<rparr>"

definition tournamentEnded :: "room \<Rightarrow> bool" where
  "tournamentEnded room =
     (length (tournamentPlayers room) \<le> 1 \<or> handsPlayed room \<ge> startingPlayerCount room)"

definition afterHandEnded :: "room \<Rightarrow> room \<times> outcome" where
  "afterHandEnded room =
     (let r1 = pruneRoster room in
      if tournamentEnded r1
      then (let r2 = r1\<lparr>gameState := Ended\<rparr>;
                rankings = jsSort (\<lambda>a b. money (players r2 ! b) - money (players r2 ! a))
                             [0..<length (players r2)];
                champ = (case tournamentPlayers r2 of [] \<Rightarrow> None | c # _ \<Rightarrow> Some c)
            in (r2, TournamentEnded champ rankings))
      else (r1, NextHandScheduled))"

section \<open>The socket handlers\<close>

text \<open>
  Every rejection of a handler is an \<^verbatim>\<open>error\<close> event sent before any field is written, so a
  rejected intent leaves the room as it was: the model returns \<open>Inl\<close> with the reason and no
  room. \<open>HandNotThreeCards\<close> is not an error of the source. It stands at one place:
  \<^verbatim>\<open>resolveHand\<close> sorts the evaluated hands only when several players are active, which no
  call of the handlers reaches (lemma \<open>finishAction_accepts\<close> below); the model sorts there
  when every active hand holds three cards and gives this mark otherwise, where the source
  would sort with values that are \<^verbatim>\<open>NaN\<close>.
\<close>

datatype error =
    RoomNotFound | PlayerNotFound | AlreadyFolded | NotYourTurn | AlreadyViewed
  | BelowMinBet | InsufficientFunds | AlreadyAllIn | OneHasFolded | RoundTooEarly
  | StakeNotMatched | NotHost | TooFewPlayers | HandNotThreeCards

text \<open>
  \<^verbatim>\<open>room.players.find(p => p.id === socket.id)\<close>, as the seat of the player found. The
  handlers then use \<^verbatim>\<open>room.players.indexOf(player)\<close>, which is that seat.
\<close>

fun findSeat :: "player list \<Rightarrow> string \<Rightarrow> nat option" where
  "findSeat [] sid = None"
| "findSeat (p # ps) sid =
     (if pid p = sid then Some 0 else map_option Suc (findSeat ps sid))"

definition findPlayer :: "room \<Rightarrow> string \<Rightarrow> nat option" where
  "findPlayer room sid = findSeat (players room) sid"

text \<open>
  \<^verbatim>\<open>room.currentTurn = getNextActivePlayerIndex(room, room.players.indexOf(player))\<close>, the
  line that ends the first part of \<^verbatim>\<open>place-bet\<close>, \<^verbatim>\<open>fold\<close>, \<^verbatim>\<open>all-in\<close> and
  \<^verbatim>\<open>compare-cards\<close>.
\<close>

definition advanceTurn :: "room \<Rightarrow> nat \<Rightarrow> room" where
  "advanceTurn room i = room\<lparr>currentTurn := getNextActivePlayerIndex room i\<rparr>"

text \<open>\<^verbatim>\<open>view-cards\<close>\<close>

definition viewCards :: "room \<Rightarrow> string \<Rightarrow> error + room" where
  "viewCards room sid =
     (case findPlayer room sid of
        None \<Rightarrow> Inl PlayerNotFound
      | Some i \<Rightarrow>
          (let player = players room ! i in
           if viewedCards player then Inl AlreadyViewed
           else if currentTurn room \<noteq> int i then Inl NotYourTurn
           else Inr (room\<lparr>players := (players room)[i := player\<lparr>viewedCards := True\<rparr>]\<rparr>)))"

text \<open>
  \<^verbatim>\<open>place-bet\<close>, from the lookup of the player to the change of turn. \<open>amount\<close> is
  \<^verbatim>\<open>parseInt(amount)\<close> when that is an integer; for a payload that does not parse, where it
  is \<^verbatim>\<open>NaN\<close>, see \<open>placeBetNumbers\<close>.
\<close>

definition placeBet :: "room \<Rightarrow> string \<Rightarrow> int \<Rightarrow> error + room" where
  "placeBet room sid amount =
     (case findPlayer room sid of
        None \<Rightarrow> Inl PlayerNotFound
      | Some i \<Rightarrow>
          (let player = players room ! i in
           if folded player then Inl AlreadyFolded
           else if currentTurn room \<noteq> int i then Inl NotYourTurn
           else if amount < minBet room then Inl BelowMinBet
           else
             (let actual = (if \<not> viewedCards player then amount div 2 else amount) in
              if money player < actual then Inl InsufficientFunds
              else
                (let player' = player\<lparr>money := money player - actual,
                                       currentBet := currentBet player + actual,
                                       actedThisRound := True\<rparr>;
                     r1 = room\<lparr>players := (players room)[i := player'],
                               pot := pot room + actual\<rparr>;
                     r2 = (if amount > minBet r1
                           then r1\<lparr>minBet := amount, lastRaise := Some sid\<rparr> else r1);
                     r3 = r2\<lparr>betHistory := betHistory r2 @
                               [\<lparr>playerId = sid, playerName = name player', declaredAmount = amount,
                                 actualAmount = actual, viewedAtBet = viewedCards player'\<rparr>]\<rparr>
                 in Inr (advanceTurn r3 i)))))"

text \<open>\<^verbatim>\<open>fold\<close>, up to the change of turn.\<close>

definition foldHand :: "room \<Rightarrow> string \<Rightarrow> error + room" where
  "foldHand room sid =
     (case findPlayer room sid of
        None \<Rightarrow> Inl PlayerNotFound
      | Some i \<Rightarrow>
          (let player = players room ! i in
           if folded player then Inl AlreadyFolded
           else if currentTurn room \<noteq> int i then Inl NotYourTurn
           else
             (let r1 = room\<lparr>players :=
                         (players room)[i := player\<lparr>folded := True, actedThisRound := True\<rparr>]\<rparr>
              in Inr (advanceTurn r1 i))))"

text \<open>\<^verbatim>\<open>all-in\<close>, up to the change of turn.\<close>

definition goAllIn :: "room \<Rightarrow> string \<Rightarrow> error + room" where
  "goAllIn room sid =
     (case findPlayer room sid of
        None \<Rightarrow> Inl PlayerNotFound
      | Some i \<Rightarrow>
          (let player = players room ! i in
           if folded player then Inl AlreadyFolded
           else if allIn player then Inl AlreadyAllIn
           else if currentTurn room \<noteq> int i then Inl NotYourTurn
           else
             (let allInAmount = money player;
                  player' = player\<lparr>money := 0, currentBet := currentBet player + allInAmount,
                                    allIn := True, actedThisRound := True\<rparr>;
                  r1 = room\<lparr>players := (players room)[i := player'],
                            pot := pot room + allInAmount\<rparr>;
                  r2 = (if allInAmount > minBet r1
                        then r1\<lparr>minBet := allInAmount, lastRaise := Some sid\<rparr> else r1)
              in Inr (advanceTurn r2 i))))"

text \<open>\<^verbatim>\<open>compare-cards\<close>, up to the change of turn.\<close>

definition compareCards :: "room \<Rightarrow> string \<Rightarrow> string \<Rightarrow> error + room" where
  "compareCards room sid targetPlayerId =
     (case findPlayer room sid of
        None \<Rightarrow> Inl PlayerNotFound
      | Some i \<Rightarrow>
          (case findPlayer room targetPlayerId of
             None \<Rightarrow> Inl PlayerNotFound
           | Some j \<Rightarrow>
               (let player = players room ! i; opponent = players room ! j in
                if folded player \<or> folded opponent then Inl OneHasFolded
                else if currentRound room < 2 then Inl RoundTooEarly
                else if currentTurn room \<noteq> int i then Inl NotYourTurn
                else
                  (let requiredActual =
                         (if viewedCards player then minBet room else minBet room div 2)
                   in
                   if currentBet player < requiredActual then Inl StakeNotMatched
                   else
                     (let hand1 = evaluateHandAny (hand player);
                          hand2 = evaluateHandAny (hand opponent);
                          result = compareHandsAny hand1 hand2;
                          ps1 = (if result > 0
                                 then (players room)[j := opponent\<lparr>folded := True\<rparr>]
                                 else if result < 0
                                 then (players room)[i := player\<lparr>folded := True\<rparr>]
                                 else players room);
                          ps2 = ps1[i := (ps1 ! i)\<lparr>actedThisRound := True\<rparr>];
                          r1 = room\<lparr>players := ps2\<rparr>
                      in Inr (advanceTurn r1 i))))))"

text \<open>
  The common tail of \<^verbatim>\<open>place-bet\<close>, \<^verbatim>\<open>fold\<close>, \<^verbatim>\<open>all-in\<close> and \<^verbatim>\<open>compare-cards\<close>:
  \<^verbatim>\<open>if (isRoundComplete(room)) checkAndAdvanceRound(room)\<close>, then, if the hand is finished,
  \<^verbatim>\<open>resolveHand\<close>, the first pruning of the roster and \<^verbatim>\<open>afterHandEnded\<close>. The second
  component is what the hand's end produced, if the hand ended.
\<close>

definition finishAction :: "room \<Rightarrow> error + room \<times> (handResult \<times> outcome) option" where
  "finishAction room =
     (let r1 = (if isRoundComplete room then snd (checkAndAdvanceRound room) else room) in
      if isHandFinished r1
      then (case resolveHand r1 of
              None \<Rightarrow> Inl HandNotThreeCards
            | Some (result, r2) \<Rightarrow>
                (case afterHandEnded (pruneRoster r2) of
                   (r3, out) \<Rightarrow> Inr (r3, Some (result, out))))
      else Inr (r1, None))"

datatype action =
    ViewCards string
  | PlaceBet string int
  | Fold string
  | AllIn string
  | CompareCards string string

text \<open>
  A whole handler, on the value of \<^verbatim>\<open>rooms.get(roomCode)\<close>.
\<close>

definition andFinish :: "error + room \<Rightarrow> error + room \<times> (handResult \<times> outcome) option" where
  "andFinish res = (case res of Inl e \<Rightarrow> Inl e | Inr r \<Rightarrow> finishAction r)"

fun handle :: "room option \<Rightarrow> action \<Rightarrow> error + room \<times> (handResult \<times> outcome) option" where
  "handle None a = Inl RoomNotFound"
| "handle (Some room) (ViewCards sid) =
     (case viewCards room sid of Inl e \<Rightarrow> Inl e | Inr r \<Rightarrow> Inr (r, None))"
| "handle (Some room) (PlaceBet sid amount) = andFinish (placeBet room sid amount)"
| "handle (Some room) (Fold sid) = andFinish (foldHand room sid)"
| "handle (Some room) (AllIn sid) = andFinish (goAllIn room sid)"
| "handle (Some room) (CompareCards sid target) = andFinish (compareCards room sid target)"

text \<open>\<^verbatim>\<open>start-game\<close>; \<open>shuffled\<close> is the deck of the first hand.\<close>

definition startGame :: "room \<Rightarrow> string \<Rightarrow> card list \<Rightarrow> error + room" where
  "startGame room sid shuffled =
     (if host room \<noteq> sid then Inl NotHost
      else if length (players room) < 2 then Inl TooFewPlayers
      else Inr (startNewHand
                  (room\<lparr>gameState := Playing, tournamentRound := 1,
                         tournamentPlayers := [0..<length (players room)],
                         startingPlayerCount := int (length (players room)),
                         handsPlayed := 0\<rparr>)
                  shuffled))"

section \<open>Creating and joining a room\<close>

text \<open>
  \<^verbatim>\<open>String.prototype.trim\<close> and \<^verbatim>\<open>toLowerCase\<close>, on ASCII text: \<open>isSpace\<close> has the six
  ASCII characters that \<^verbatim>\<open>trim\<close> strips, and \<open>lowerChar\<close> maps \<^verbatim>\<open>A\<close> to \<^verbatim>\<open>Z\<close>. A name with
  other characters (U+00A0 and the further Unicode spaces that \<^verbatim>\<open>trim\<close> strips too, letters
  outside ASCII) is outside this model.
\<close>

definition isSpace :: "char \<Rightarrow> bool" where
  "isSpace c = (c \<in> set [CHR '' '', CHR 0x09, CHR 0x0A, CHR 0x0B, CHR 0x0C, CHR 0x0D])"

definition trim :: "string \<Rightarrow> string" where
  "trim s = rev (dropWhile isSpace (rev (dropWhile isSpace s)))"

definition lowerChar :: "char \<Rightarrow> char" where
  "lowerChar c =
     (if (65 :: nat) \<le> of_char c \<and> of_char c \<le> (90 :: nat) then char_of (of_char c + (32 :: nat)) else c)"

definition toLowerCase :: "string \<Rightarrow> string" where
  "toLowerCase s = map lowerChar s"

datatype lobbyError = InvalidName | MissingData | NoSuchRoom | AlreadyStarted | RoomFull | NameTaken

text \<open>
  \<^verbatim>\<open>create-room\<close>: \<open>roomCode\<close> is the value of \<^verbatim>\<open>generateRoomCode()\<close>, \<open>sid\<close> the socket
  id and \<open>nameSent\<close> the \<^verbatim>\<open>playerName\<close> of the payload.
\<close>

definition createRoom :: "string \<Rightarrow> string \<Rightarrow> string \<Rightarrow> lobbyError + room" where
  "createRoom roomCode sid nameSent =
     (if trim nameSent = [] then Inl InvalidName
      else Inr \<lparr>code = roomCode, host = sid,
                players = [\<lparr>pid = sid, name = trim nameSent, money = 10000, hand = [],
                            viewedCards = False, folded = False, currentBet = 0, position = 0,
                            connected = True, allIn = False, actedThisRound = False\<rparr>],
                gameState = Waiting, currentRound = 0, dealerIndex = - 1, pot = 0, deck = [],
                currentTurn = 0, minBet = 100, tournamentRound = 0, tournamentPlayers = [],
                betHistory = [], lastRaise = None, handsPlayed = 0, startingPlayerCount = 0\<rparr>)"

text \<open>
  \<^verbatim>\<open>join-room\<close>, on the value of \<^verbatim>\<open>rooms.get(roomCode.toUpperCase())\<close>. (The handler first
  rejects a missing \<^verbatim>\<open>roomCode\<close> or \<^verbatim>\<open>playerName\<close>; the model, which starts from the room
  found for a code, keeps the test of the name.)
\<close>

definition joinRoom :: "room option \<Rightarrow> string \<Rightarrow> string \<Rightarrow> lobbyError + room" where
  "joinRoom found sid nameSent =
     (if nameSent = [] then Inl MissingData
      else
        (case found of
           None \<Rightarrow> Inl NoSuchRoom
         | Some room \<Rightarrow>
             if gameState room \<noteq> Waiting then Inl AlreadyStarted
             else if length (players room) \<ge> 8 then Inl RoomFull
             else if list_ex (\<lambda>p. toLowerCase (name p) = toLowerCase (trim nameSent))
                       (players room)
             then Inl NameTaken
             else Inr (room\<lparr>players := players room @
                         [\<lparr>pid = sid, name = trim nameSent, money = 10000, hand = [],
                           viewedCards = False, folded = False, currentBet = 0,
                           position = length (players room), connected = True, allIn = False,
                           actedThisRound = False\<rparr>]\<rparr>)))"

section \<open>The room with its timers\<close>

text \<open>
  \<^verbatim>\<open>afterHandEnded\<close> sets a timer with \<^verbatim>\<open>setTimeout\<close>; nothing ever clears one. The state of
  a room in play is the room and the number of timers set and not yet fired. An event is
  an intent of a player, or the firing of a timer, whose callback is
  \<^verbatim>\<open>startNewHand(room)\<close> (with the deck it shuffles).
\<close>

datatype event = Intent action | TimerFires "card list"

fun scheduled :: "(handResult \<times> outcome) option \<Rightarrow> nat" where
  "scheduled (Some (res, NextHandScheduled)) = 1"
| "scheduled other = 0"

fun serverStep :: "room \<times> nat \<Rightarrow> event \<Rightarrow> (room \<times> nat) option" where
  "serverStep (room, timers) (Intent a) =
     (case handle (Some room) a of
        Inl e \<Rightarrow> None
      | Inr (room', ended) \<Rightarrow> Some (room', timers + scheduled ended))"
| "serverStep (room, timers) (TimerFires shuffled) =
     (if timers = 0 then None else Some (startNewHand room shuffled, timers - 1))"

fun serverRun :: "room \<times> nat \<Rightarrow> event list \<Rightarrow> (room \<times> nat) option" where
  "serverRun st [] = Some st"
| "serverRun st (e # es) =
     (case serverStep st e of None \<Rightarrow> None | Some st' \<Rightarrow> serverRun st' es)"

section \<open>Predicates and sample rooms used in the statements\<close>


text \<open>
  The room after \<^verbatim>\<open>create-room\<close> by socket \<open>s1\<close> and \<^verbatim>\<open>join-room\<close> by socket \<open>s2\<close>.
\<close>

definition twoPlayerLobby :: room where
  "twoPlayerLobby =
     \<lparr>code = ''KH0001'', host = ''s1'',
      players = [\<lparr>pid = ''s1'', name = ''An'', money = 10000, hand = [],
                  viewedCards = False, folded = False, currentBet = 0, position = 0,
                  connected = True, allIn = False, actedThisRound = False\<rparr>,
                 \<lparr>pid = ''s2'', name = ''Binh'', money = 10000, hand = [],
                  viewedCards = False, folded = False, currentBet = 0, position = 1,
                  connected = True, allIn = False, actedThisRound = False\<rparr>],
      gameState = Waiting, currentRound = 0, dealerIndex = - 1, pot = 0, deck = [],
      currentTurn = 0, minBet = 100, tournamentRound = 0, tournamentPlayers = [],
      betHistory = [], lastRaise = None, handsPlayed = 0, startingPlayerCount = 0\<rparr>"

text \<open>
  The first hand of that room, started by \<^verbatim>\<open>start-game\<close> with the deck in its unshuffled order
  (one of the orders the shuffle can produce), and two rooms reached from it.
\<close>

definition firstHand :: room where
  "firstHand =
     startNewHand
       (twoPlayerLobby\<lparr>gameState := Playing, tournamentRound := 1, tournamentPlayers := [0, 1],
                       startingPlayerCount := 2, handsPlayed := 0\<rparr>)
       createDeck"

definition secondRound :: room where
  "secondRound =
    \<lparr>code = ''KH0001'', host = ''s1'',
      players =
        [\<lparr>pid = ''s1'', name = ''An'', money = 9850,
            hand = [Card RA Spades, Card RK Spades, Card RQ Spades],
            viewedCards = False, folded = False, currentBet = 150,
            position = 0, connected = True, allIn = False,
            actedThisRound = False\<rparr>,
         \<lparr>pid = ''s2'', name = ''Binh'', money = 9850,
            hand = [Card RJ Spades, Card R10 Spades, Card R9 Spades],
            viewedCards = False, folded = False, currentBet = 150,
            position = 1, connected = True, allIn = False,
            actedThisRound = False\<rparr>],
      gameState = Playing, currentRound = 2, dealerIndex = 0, pot = 300,
      deck = take 46 createDeck,
      currentTurn = 1, minBet = 100, tournamentRound = 1,
      tournamentPlayers = [0, 1],
      betHistory =
        [\<lparr>playerId = ''s2'', playerName = ''Binh'', declaredAmount = 100,
            actualAmount = 50, viewedAtBet = False\<rparr>,
         \<lparr>playerId = ''s1'', playerName = ''An'', declaredAmount = 100,
            actualAmount = 50, viewedAtBet = False\<rparr>],
      lastRaise = None, handsPlayed = 1, startingPlayerCount = 2\<rparr>"

definition afterBigRaise :: room where
  "afterBigRaise =
    \<lparr>code = ''KH0001'', host = ''s1'',
      players =
        [\<lparr>pid = ''s1'', name = ''An'', money = 9900,
            hand = [Card RA Spades, Card RK Spades, Card RQ Spades],
            viewedCards = False, folded = False, currentBet = 100,
            position = 0, connected = True, allIn = False,
            actedThisRound = False\<rparr>,
         \<lparr>pid = ''s2'', name = ''Binh'', money = 50,
            hand = [Card RJ Spades, Card R10 Spades, Card R9 Spades],
            viewedCards = False, folded = False, currentBet = 9950,
            position = 1, connected = True, allIn = False,
            actedThisRound = True\<rparr>],
      gameState = Playing, currentRound = 1, dealerIndex = 0, pot = 10050,
      deck = take 46 createDeck,
      currentTurn = 0, minBet = 19700, tournamentRound = 1,
      tournamentPlayers = [0, 1],
      betHistory =
        [\<lparr>playerId = ''s2'', playerName = ''Binh'', declaredAmount = 19700,
            actualAmount = 9850, viewedAtBet = False\<rparr>],
      lastRaise = Some ''s2'', handsPlayed = 1, startingPlayerCount = 2\<rparr>"

text \<open>
  Two rooms as \<^verbatim>\<open>resolveHand\<close> leaves them, before \<^verbatim>\<open>afterHandEnded\<close>: the second hand of a
  two-player tournament, and a hand lost by an all-in player.
\<close>

definition lastHandResolved :: room where
  "lastHandResolved =
    \<lparr>code = ''KH0001'', host = ''s1'',
      players =
        [\<lparr>pid = ''s1'', name = ''An'', money = 9800,
            hand = [Card RA Spades, Card RK Spades, Card RQ Spades],
            viewedCards = False, folded = True, currentBet = 100,
            position = 0, connected = True, allIn = False,
            actedThisRound = True\<rparr>,
         \<lparr>pid = ''s2'', name = ''Binh'', money = 10200,
            hand = [Card RJ Spades, Card R10 Spades, Card R9 Spades],
            viewedCards = False, folded = False, currentBet = 100,
            position = 1, connected = True, allIn = False,
            actedThisRound = False\<rparr>],
      gameState = Playing, currentRound = 1, dealerIndex = 1, pot = 200,
      deck = take 46 createDeck, currentTurn = 1, minBet = 100, tournamentRound = 1,
      tournamentPlayers = [0, 1], betHistory = [], lastRaise = None,
      handsPlayed = 2, startingPlayerCount = 2\<rparr>"

definition allInResolved :: room where
  "allInResolved =
    \<lparr>code = ''KH0001'', host = ''s1'',
      players =
        [\<lparr>pid = ''s1'', name = ''An'', money = 0,
            hand = [Card RA Spades, Card RK Spades, Card RQ Spades],
            viewedCards = False, folded = False, currentBet = 10000,
            position = 0, connected = True, allIn = True,
            actedThisRound = True\<rparr>,
         \<lparr>pid = ''s2'', name = ''Binh'', money = 20000,
            hand = [Card RJ Spades, Card R10 Spades, Card R9 Spades],
            viewedCards = False, folded = False, currentBet = 9950,
            position = 1, connected = True, allIn = False,
            actedThisRound = True\<rparr>],
      gameState = Playing, currentRound = 1, dealerIndex = 0, pot = 19950,
      deck = take 46 createDeck,
      currentTurn = 1, minBet = 19700, tournamentRound = 1,
      tournamentPlayers = [0, 1],
      betHistory =
        [\<lparr>playerId = ''s2'', playerName = ''Binh'', declaredAmount = 19700,
            actualAmount = 9850, viewedAtBet = False\<rparr>],
      lastRaise = Some ''s2'', handsPlayed = 1, startingPlayerCount = 2\<rparr>"

text \<open>
  A room with two active players whose hands differ in category and agree in value. The
  hand in it is not finished, so the handlers do not call \<^verbatim>\<open>resolveHand\<close> on it.
\<close>

definition showdownRoom :: room where
  "showdownRoom =
    \<lparr>code = ''KH0001'', host = ''s1'',
      players =
        [\<lparr>pid = ''s1'', name = ''An'', money = 9900,
            hand = [Card R4 Spades, Card R4 Hearts, Card R4 Diamonds],
            viewedCards = False, folded = False, currentBet = 100,
            position = 0, connected = True, allIn = False,
            actedThisRound = False\<rparr>,
         \<lparr>pid = ''s2'', name = ''Binh'', money = 9900,
            hand = [Card R4 Clubs, Card R3 Hearts, Card R2 Diamonds],
            viewedCards = False, folded = False, currentBet = 100,
            position = 1, connected = True, allIn = False,
            actedThisRound = False\<rparr>],
      gameState = Playing, currentRound = 1, dealerIndex = 0, pot = 200,
      deck = filter (\<lambda>c. c \<notin> set [Card R4 Spades, Card R4 Hearts, Card R4 Diamonds,
                                      Card R4 Clubs, Card R3 Hearts, Card R2 Diamonds])
               createDeck, currentTurn = 1, minBet = 100, tournamentRound = 1,
      tournamentPlayers = [0, 1], betHistory = [], lastRaise = None,
      handsPlayed = 1, startingPlayerCount = 2\<rparr>"

text \<open>
  The room after the first hand was won by a fold and the winner then went all-in during
  the delay before the next hand.
\<close>

definition endedWithTimer :: room where
  "endedWithTimer =
    \<lparr>code = ''KH0001'', host = ''s1'',
      players =
        [\<lparr>pid = ''s1'', name = ''An'', money = 0,
            hand = [Card RA Spades, Card RK Spades, Card RQ Spades],
            viewedCards = False, folded = False, currentBet = 10200,
            position = 0, connected = True, allIn = True,
            actedThisRound = True\<rparr>,
         \<lparr>pid = ''s2'', name = ''Binh'', money = 9900,
            hand = [Card RJ Spades, Card R10 Spades, Card R9 Spades],
            viewedCards = False, folded = True, currentBet = 100,
            position = 1, connected = True, allIn = False,
            actedThisRound = True\<rparr>],
      gameState = Ended, currentRound = 1, dealerIndex = 0, pot = 10300,
      deck = take 46 createDeck, currentTurn = - 1, minBet = 10100, tournamentRound = 1,
      tournamentPlayers = [1], betHistory = [], lastRaise = Some ''s1'',
      handsPlayed = 1, startingPlayerCount = 2\<rparr>"

section \<open>A hand as a sequence of intents\<close>

text \<open>
  \<open>playIntents r as\<close> handles the intents \<open>as\<close> one after the other from the room \<open>r\<close>; it is
  \<open>None\<close> as soon as one of them is rejected. An intent \<open>PlaceBet sid amount\<close> carries the
  integer that \<^verbatim>\<open>parseInt\<close> returned, so these sequences hold no bet whose amount is \<^verbatim>\<open>NaN\<close>. \<open>charged r a\<close> is the amount the handler of
  \<open>a\<close> takes from the balance of its player when it accepts \<open>a\<close> in \<open>r\<close>: \<^verbatim>\<open>actualAmount\<close> for a
  bet, \<^verbatim>\<open>allInAmount\<close> for an all-in, nothing for the other intents; \<open>chargedTotal\<close> adds these
  amounts along a sequence of intents.
\<close>

fun charged :: "room \<Rightarrow> action \<Rightarrow> int" where
  "charged room (PlaceBet sid amount) =
     (case findPlayer room sid of
        None \<Rightarrow> 0
      | Some i \<Rightarrow> if \<not> viewedCards (players room ! i) then amount div 2 else amount)"
| "charged room (AllIn sid) =
     (case findPlayer room sid of None \<Rightarrow> 0 | Some i \<Rightarrow> money (players room ! i))"
| "charged room other = 0"

fun playIntents :: "room \<Rightarrow> action list \<Rightarrow> room option" where
  "playIntents r [] = Some r"
| "playIntents r (a # as) =
     (case handle (Some r) a of Inl e \<Rightarrow> None | Inr (r', ended) \<Rightarrow> playIntents r' as)"

fun chargedTotal :: "room \<Rightarrow> action list \<Rightarrow> int" where
  "chargedTotal r [] = 0"
| "chargedTotal r (a # as) =
     (case handle (Some r) a of
        Inl e \<Rightarrow> 0
      | Inr (r', ended) \<Rightarrow> charged r a + chargedTotal r' as)"

text \<open>
  The invariant of a hand: the pot is the sum of the \<open>currentBet\<close> fields and is not
  negative, \<open>minBet\<close> is at least the ante, and the player on turn, if any, has a positive
  balance.
\<close>

definition turnHasMoney :: "room \<Rightarrow> bool" where
  "turnHasMoney r = (\<forall>i < length (players r). currentTurn r = int i \<longrightarrow> 0 < money (players r ! i))"

definition potInvariant :: "room \<Rightarrow> bool" where
  "potInvariant r =
     (pot r = sum_list (map currentBet (players r)) \<and> 0 \<le> pot r \<and> 100 \<le> minBet r
      \<and> turnHasMoney r)"

section \<open>All-in players, a disconnect, and the calls of resolveHand\<close>

text \<open>
  \<^verbatim>\<open>all-in\<close> sets the balance of its player to 0, and only a player with a positive balance
  is credited by \<^verbatim>\<open>resolveHand\<close>: until the next hand resets the flag, a player who is all-in
  has no money. \<^verbatim>\<open>resolveHand\<close> is called from one place, the end of the four handlers
  (\<open>finishAction\<close>), under the test \<^verbatim>\<open>isHandFinished(room)\<close>.
\<close>

definition allInHasNoMoney :: "room \<Rightarrow> bool" where
  "allInHasNoMoney r = list_all (\<lambda>p. allIn p \<longrightarrow> money p \<le> 0) (players r)"

text \<open>
  \<^verbatim>\<open>disconnect\<close>, for the room of the socket: \<open>None\<close> when the room is deleted (the host leaves
  the lobby). It calls none of \<^verbatim>\<open>checkAndAdvanceRound\<close>, \<^verbatim>\<open>isHandFinished\<close> and
  \<^verbatim>\<open>resolveHand\<close>.
\<close>

definition disconnect :: "room \<Rightarrow> string \<Rightarrow> room option" where
  "disconnect room sid =
     (case findPlayer room sid of
        None \<Rightarrow> Some room
      | Some pIdx \<Rightarrow>
          (let r1 = room\<lparr>players := (players room)[pIdx := (players room ! pIdx)\<lparr>connected := False\<rparr>]\<rparr>
           in if host r1 = sid \<and> gameState r1 = Waiting then None
              else if gameState r1 = Playing
              then Some (r1\<lparr>players := (players r1)[pIdx := (players r1 ! pIdx)\<lparr>folded := True\<rparr>]\<rparr>)
              else Some r1))"

text \<open>
  The first hand of the two-player room after \<^verbatim>\<open>fold\<close> by the second player, before the end
  of that handler looks at the room.
\<close>

definition oneLeft :: room where
  "oneLeft =
    \<lparr>code = ''KH0001'', host = ''s1'',
      players =
        [\<lparr>pid = ''s1'', name = ''An'', money = 9900,
            hand = [Card RA Spades, Card RK Spades, Card RQ Spades],
            viewedCards = False, folded = False, currentBet = 100,
            position = 0, connected = True, allIn = False,
            actedThisRound = False\<rparr>,
         \<lparr>pid = ''s2'', name = ''Binh'', money = 9900,
            hand = [Card RJ Spades, Card R10 Spades, Card R9 Spades],
            viewedCards = False, folded = True, currentBet = 100,
            position = 1, connected = True, allIn = False,
            actedThisRound = True\<rparr>],
      gameState = Playing, currentRound = 1, dealerIndex = 0, pot = 200,
      deck = take 46 createDeck, currentTurn = 0, minBet = 100, tournamentRound = 1,
      tournamentPlayers = [0, 1], betHistory = [], lastRaise = None,
      handsPlayed = 1, startingPlayerCount = 2\<rparr>"

section \<open>A bet whose amount does not parse\<close>

text \<open>
  \<^verbatim>\<open>parseInt(amount)\<close> is \<^verbatim>\<open>NaN\<close> for a payload such as \<^verbatim>\<open>"abc"\<close> or a missing field. The
  records \<open>player\<close> and \<open>room\<close> above hold integers, and \<open>placeBet\<close> takes the amount that
  parsed. \<open>placeBetNumbers\<close> is the same handler from \<^verbatim>\<open>const declaredAmount\<close> to the update of
  \<^verbatim>\<open>room.minBet\<close>, on the four numbers it reads and writes, each a JavaScript number that may
  be \<^verbatim>\<open>NaN\<close>; \<open>viewed\<close> is \<^verbatim>\<open>player.viewedCards\<close>. The tests before it (player found, not
  folded, on turn) do not read the amount. \<open>jsLessEq\<close> is \<^verbatim>\<open>a <= b\<close>.
\<close>

fun jsLessEq :: "jsnum \<Rightarrow> jsnum \<Rightarrow> bool" where
  "jsLessEq (Num a) (Num b) = (a \<le> b)"
| "jsLessEq a b = False"

record betNumbers =
  playerMoney :: jsnum
  playerCurrentBet :: jsnum
  roomPot :: jsnum
  roomMinBet :: jsnum

definition placeBetNumbers :: "jsnum \<Rightarrow> bool \<Rightarrow> betNumbers \<Rightarrow> error + betNumbers" where
  "placeBetNumbers declared viewed s =
     (if jsLess declared (roomMinBet s) then Inl BelowMinBet
      else
        (let actual = (if \<not> viewed then jsFloorHalf declared else declared) in
         if jsLess (playerMoney s) actual then Inl InsufficientFunds
         else
           (let s1 = s\<lparr>playerMoney := jsSub (playerMoney s) actual,
                       playerCurrentBet := jsAdd (playerCurrentBet s) actual,
                       roomPot := jsAdd (roomPot s) actual\<rparr>
            in Inr (if jsLess (roomMinBet s1) declared
                    then s1\<lparr>roomMinBet := declared\<rparr> else s1))))"

text \<open>The four numbers of a room and the player at seat \<open>i\<close>.\<close>

definition numbersOf :: "room \<Rightarrow> nat \<Rightarrow> betNumbers" where
  "numbersOf room i =
     \<lparr>playerMoney = Num (money (players room ! i)),
      playerCurrentBet = Num (currentBet (players room ! i)),
      roomPot = Num (pot room), roomMinBet = Num (minBet room)\<rparr>"

section \<open>Properties of the hand evaluator\<close>

lemma types_inj: "types s = types t \<longleftrightarrow> s = t"
  by (cases s; cases t) simp_all

lemma len3: "length h = 3 \<Longrightarrow> \<exists>a b c. h = [a,b,c]"
  by (cases h; simp; rename_tac x xs; case_tac xs; simp; rename_tac y ys; case_tac ys; simp)

lemma getCardValue_bounds: "getCardValue r \<le> 14" "2 \<le> getCardValue r"
  by (cases r; simp)+

lemma getCardValue_inj: "getCardValue r = getCardValue s \<longleftrightarrow> r = s"
  by (cases r; cases s; simp)

lemma sort3: "\<exists>x y z. jsSort (\<lambda>a b. cvalue b - cvalue a) [a,b,c] = [x,y,z] \<and> cvalue x \<ge> cvalue y \<and> cvalue y \<ge> cvalue z \<and> {x,y,z} = {a,b,c}"
  by (auto simp: jsSort_def)

lemma insertBy_length: "length (insertBy cmp x xs) = Suc (length xs)"
  by (induction xs) auto

lemma jsSort_length: "length (jsSort cmp xs) = length xs"
  by (induction xs) (auto simp: jsSort_def insertBy_length)

lemma evaluateHand_Some:
  assumes "evaluateHand g = Some e"
  shows "\<exists>x y z. length g = 3 \<and> set g = {x,y,z} \<and> cvalue y \<le> cvalue x \<and> cvalue z \<le> cvalue y \<and> e = classify x y z"
proof -
  have "length (jsSort (\<lambda>a b. cvalue b - cvalue a) g) = 3"
    using assms by (auto simp: evaluateHand_def split: list.splits)
  hence "length g = 3" by (simp add: jsSort_length)
  then obtain a b c where g: "g = [a,b,c]" using len3 by blast
  obtain x y z where s: "jsSort (\<lambda>a b. cvalue b - cvalue a) [a,b,c] = [x,y,z]" "cvalue x \<ge> cvalue y" "cvalue y \<ge> cvalue z" "{x,y,z} = {a,b,c}"
    using sort3 by blast
  have e: "e = classify x y z" using assms g s(1) by (simp add: evaluateHand_def)
  have sg: "set g = {x,y,z}" using g s(4) by simp
  have "length g = 3 \<and> set g = {x,y,z} \<and> cvalue y \<le> cvalue x \<and> cvalue z \<le> cvalue y \<and> e = classify x y z"
    using \<open>length g = 3\<close> sg s(2,3) e by simp
  thus ?thesis by (intro exI)
qed

lemma evaluateHand_length: "length g = 3 \<Longrightarrow> \<exists>x y z. set g = {x,y,z} \<and> cvalue y \<le> cvalue x \<and> cvalue z \<le> cvalue y \<and> evaluateHand g = Some (classify x y z)"
proof -
  assume "length g = 3"
  then obtain a b c where g: "g = [a,b,c]" using len3 by blast
  obtain x y z where s: "jsSort (\<lambda>a b. cvalue b - cvalue a) [a,b,c] = [x,y,z]" "cvalue x \<ge> cvalue y" "cvalue y \<ge> cvalue z" "{x,y,z} = {a,b,c}"
    using sort3 by blast
  have e: "evaluateHand g = Some (classify x y z)" using g s(1) by (simp add: evaluateHand_def)
  have sg: "set g = {x,y,z}" using g s(4) by simp
  have "set g = {x,y,z} \<and> cvalue y \<le> cvalue x \<and> cvalue z \<le> cvalue y \<and> evaluateHand g = Some (classify x y z)"
    using sg s(2,3) e by simp
  thus ?thesis by (intro exI)
qed

lemma a23_eval: assumes "length h = 3" "rank ` set h = {RA, R2, R3}"
  shows "evaluateHand h = Some \<lparr>htype = (if \<exists>s. \<forall>c\<in>set h. suit c = s then StraightFlush else Straight), 
     hvalue = (if \<exists>s. \<forall>c\<in>set h. suit c = s then 14000 else 1400)\<rparr>"
proof -
  obtain x y z where s: "set h = {x,y,z}" "cvalue x \<ge> cvalue y" "cvalue y \<ge> cvalue z" "evaluateHand h = Some (classify x y z)"
    using evaluateHand_length[OF assms(1)] by blast
  have r: "{rank x, rank y, rank z} = {RA, R2, R3}" using assms(2) s(1) by simp
  have v: "{cvalue x, cvalue y, cvalue z} = {14, 2, 3}"
    using arg_cong[OF r, of "\<lambda>S. getCardValue ` S"] by (simp add: cvalue_def)
  have m1: "cvalue x \<in> {14, 2, 3}" "cvalue y \<in> {14, 2, 3}" "cvalue z \<in> {14, 2, 3}"
    using v by blast+
  have m2: "14 \<in> {cvalue x, cvalue y, cvalue z}" "2 \<in> {cvalue x, cvalue y, cvalue z}"
    "3 \<in> {cvalue x, cvalue y, cvalue z}"
    using v by simp_all
  have vx: "cvalue x = 14 \<and> cvalue y = 3 \<and> cvalue z = 2"
    using m1 m2 s(2,3) by simp linarith
  have ss: "(\<exists>s. \<forall>c\<in>set h. suit c = s) \<longleftrightarrow> (suit y = suit x \<and> suit z = suit x)"
    unfolding s(1) by auto
  have nr: "\<not> (rank x = rank y \<and> rank y = rank z)"
    using vx by (auto simp: cvalue_def)
  show ?thesis unfolding ss s(4) classify_def using vx nr
    by (simp add: Let_def)
qed

lemma ace_in_hand:
  assumes "cvalue x \<ge> cvalue y" "cvalue y \<ge> cvalue z" "set h = {x,y,z}"
  shows "RA \<in> rank ` set h \<longleftrightarrow> cvalue x = 14"
proof
  assume "RA \<in> rank ` set h"
  hence "rank x = RA \<or> rank y = RA \<or> rank z = RA" unfolding assms(3) by auto
  hence "cvalue x = 14 \<or> cvalue y = 14 \<or> cvalue z = 14" unfolding cvalue_def by auto
  hence "cvalue x \<ge> 14" using assms(1,2) by linarith
  moreover have "cvalue x \<le> 14" unfolding cvalue_def by (rule getCardValue_bounds(1))
  ultimately show "cvalue x = 14" by simp
next
  assume "cvalue x = 14"
  hence "getCardValue (rank x) = getCardValue RA" by (simp add: cvalue_def)
  hence "rank x = RA" by (simp only: getCardValue_inj)
  thus "RA \<in> rank ` set h" unfolding assms(3) by (metis imageI insertI1)
qed

lemma classify_type_value:
  "(htype (classify x y z) = Straight \<longrightarrow> hvalue (classify x y z) = cvalue x * 100) \<and>
   (htype (classify x y z) = StraightFlush \<longrightarrow> hvalue (classify x y z) = cvalue x * 1000) \<and>
   (htype (classify x y z) = ThreeOfAKind \<longrightarrow> hvalue (classify x y z) = cvalue x * 100)"
proof -
  define T where "T = (rank x = rank y \<and> rank y = rank z)"
  define S where "S = (suit x = suit x \<and> suit y = suit x \<and> suit z = suit x)"
  define St where "St = ((cvalue x - cvalue y = 1 \<and> cvalue y - cvalue z = 1) \<or>
                         (cvalue x = 14 \<and> cvalue y = 3 \<and> cvalue z = 2))"
  define P where "P = (rank x = rank y)"
  define Q where "Q = (rank y = rank z)"
  have eq: "classify x y z =
     (if T then \<lparr>htype = ThreeOfAKind, hvalue = cvalue x * 100\<rparr>
      else if S \<and> St then \<lparr>htype = StraightFlush, hvalue = cvalue x * 1000\<rparr>
      else if S then \<lparr>htype = Flush, hvalue = cvalue x * 10000 + cvalue y * 100 + cvalue z\<rparr>
      else if St then \<lparr>htype = Straight, hvalue = cvalue x * 100\<rparr>
      else if P then \<lparr>htype = Pair, hvalue = cvalue x * 100 + cvalue z\<rparr>
      else if Q then \<lparr>htype = Pair, hvalue = cvalue y * 100 + cvalue x\<rparr>
      else \<lparr>htype = HighCard, hvalue = cvalue x * 10000 + cvalue y * 100 + cvalue z\<rparr>)"
    unfolding classify_def Let_def T_def S_def St_def P_def Q_def by (rule refl)
  show ?thesis unfolding eq
    by (cases T; cases S; cases St; cases P; cases Q; simp)
qed

lemma straight_cmp:
  assumes "evaluateHand g = Some e" "htype e = Straight"
  shows "compareHands e \<lparr>htype = Straight, hvalue = 1400\<rparr> = (if RA \<in> rank ` set g then 0 else - 1)"
proof -
  obtain x y z where s: "set g = {x,y,z}" "cvalue x \<ge> cvalue y" "cvalue y \<ge> cvalue z" "e = classify x y z"
    using evaluateHand_Some[OF assms(1)] by blast
  have v: "hvalue e = cvalue x * 100" using classify_type_value[of x y z] assms(2) s(4) by simp
  have "cvalue x \<le> 14" using getCardValue_bounds(1)[of "rank x"] by (simp add: cvalue_def)
  thus ?thesis unfolding ace_in_hand[OF s(2,3,1)] using v assms(2)
    by (auto simp: compareHands_def)
qed

lemma straightflush_cmp:
  assumes "evaluateHand g = Some e" "htype e = StraightFlush"
  shows "compareHands e \<lparr>htype = StraightFlush, hvalue = 14000\<rparr> = (if RA \<in> rank ` set g then 0 else - 1)"
proof -
  obtain x y z where s: "set g = {x,y,z}" "cvalue x \<ge> cvalue y" "cvalue y \<ge> cvalue z" "e = classify x y z"
    using evaluateHand_Some[OF assms(1)] by blast
  have v: "hvalue e = cvalue x * 1000" using classify_type_value[of x y z] assms(2) s(4) by simp
  have "cvalue x \<le> 14" using getCardValue_bounds(1)[of "rank x"] by (simp add: cvalue_def)
  thus ?thesis unfolding ace_in_hand[OF s(2,3,1)] using v assms(2)
    by (auto simp: compareHands_def)
qed



lemma eval_three_threes:
  "evaluateHand [Card R3 Spades, Card R3 Hearts, Card R3 Diamonds] =
     Some \<lparr>htype = ThreeOfAKind, hvalue = 300\<rparr>"
  by (simp add: evaluateHand_def jsSort_def cvalue_def classify_def)

lemma eval_akq_spades:
  "evaluateHand [Card RA Spades, Card RK Spades, Card RQ Spades] =
     Some \<lparr>htype = StraightFlush, hvalue = 14000\<rparr>"
  by (simp add: evaluateHand_def jsSort_def cvalue_def classify_def)

lemma eval_234_mixed:
  "evaluateHand [Card R2 Hearts, Card R3 Spades, Card R4 Diamonds] =
     Some \<lparr>htype = Straight, hvalue = 400\<rparr>"
  by (simp add: evaluateHand_def jsSort_def cvalue_def classify_def)

lemma eval_a23_mixed:
  "evaluateHand [Card RA Hearts, Card R2 Spades, Card R3 Diamonds] =
     Some \<lparr>htype = Straight, hvalue = 1400\<rparr>"
  by (simp add: evaluateHand_def jsSort_def cvalue_def classify_def)

text \<open>
  Claim C5. \<^verbatim>\<open>compareHands\<close> is the lexicographic order on (category rank, value) for the
  category ranks high-card 1, pair 2, straight 3, flush 4, straight-flush 5,
  three-of-a-kind 6: it returns 1 when the first hand is greater, -1 when it is smaller and
  0 exactly when category and value coincide. Hence every three-of-a-kind beats every
  straight-flush (the hand 3-3-3 beats A-K-Q of spades), and a hand compared with itself
  gives 0.
\<close>

theorem compareHands_lexicographic:
  "compareHands a b =
     (if (types (htype b), hvalue b) < (types (htype a), hvalue a) then 1
      else if (types (htype a), hvalue a) < (types (htype b), hvalue b) then - 1
      else 0)
   \<and> (compareHands a b = 0 \<longleftrightarrow> htype a = htype b \<and> hvalue a = hvalue b)
   \<and> [types HighCard, types Pair, types Straight, types Flush, types StraightFlush,
       types ThreeOfAKind] = [1, 2, 3, 4, 5, 6]
   \<and> (htype a = ThreeOfAKind \<and> htype b = StraightFlush \<longrightarrow> compareHands a b = 1)
   \<and> (\<exists>t s. evaluateHand [Card R3 Spades, Card R3 Hearts, Card R3 Diamonds] = Some t
          \<and> evaluateHand [Card RA Spades, Card RK Spades, Card RQ Spades] = Some s
          \<and> htype t = ThreeOfAKind \<and> htype s = StraightFlush \<and> compareHands t s = 1)
   \<and> compareHands a a = 0"
proof -
  have lex: "compareHands a b =
     (if (types (htype b), hvalue b) < (types (htype a), hvalue a) then 1
      else if (types (htype a), hvalue a) < (types (htype b), hvalue b) then - 1
      else 0)"
    by (auto simp: compareHands_def less_prod_def)
  have zero: "compareHands a b = 0 \<longleftrightarrow> htype a = htype b \<and> hvalue a = hvalue b"
    by (auto simp: compareHands_def types_inj)
  have three: "htype a = ThreeOfAKind \<and> htype b = StraightFlush \<longrightarrow> compareHands a b = 1"
    by (simp add: compareHands_def)
  have ex: "\<exists>t s. evaluateHand [Card R3 Spades, Card R3 Hearts, Card R3 Diamonds] = Some t
          \<and> evaluateHand [Card RA Spades, Card RK Spades, Card RQ Spades] = Some s
          \<and> htype t = ThreeOfAKind \<and> htype s = StraightFlush \<and> compareHands t s = 1"
    unfolding eval_three_threes eval_akq_spades by (simp add: compareHands_def)
  have refl: "compareHands a a = 0"
    by (simp add: compareHands_def)
  show ?thesis using lex zero three ex refl by simp
qed

theorem compareHands_lexicographic_witness:
  "compareHands \<lparr>htype = ThreeOfAKind, hvalue = 300\<rparr> \<lparr>htype = StraightFlush, hvalue = 14000\<rparr> = 1
   \<and> compareHands \<lparr>htype = Pair, hvalue = 302\<rparr> \<lparr>htype = Pair, hvalue = 302\<rparr> = 0"
  using compareHands_lexicographic
          [of "\<lparr>htype = ThreeOfAKind, hvalue = 300\<rparr>" "\<lparr>htype = StraightFlush, hvalue = 14000\<rparr>"]
        compareHands_lexicographic
          [of "\<lparr>htype = Pair, hvalue = 302\<rparr>" "\<lparr>htype = Pair, hvalue = 302\<rparr>"]
  by simp

text \<open>
  Claim C3, as the code has it. A hand of ranks A-2-3 evaluates to a straight when its
  suits differ and to a straight-flush when they agree, and its tie-break value is that of
  its ace (14 * 100, or 14 * 1000 for the straight-flush). So it is a highest straight, not
  the lowest: against it, a straight of the same category that holds an ace (Q-K-A, or
  A-2-3 again) compares 0, and every other straight compares -1.
\<close>

theorem a23_ace_high_straight:
  assumes "length h = 3" and "rank ` set h = {RA, R2, R3}"
  shows "evaluateHand h =
           Some \<lparr>htype = (if \<exists>s. \<forall>c\<in>set h. suit c = s then StraightFlush else Straight),
                 hvalue = (if \<exists>s. \<forall>c\<in>set h. suit c = s then 14000 else 1400)\<rparr>
         \<and> (\<forall>g e a. evaluateHand g = Some e \<and> evaluateHand h = Some a
                \<and> htype e = htype a
              \<longrightarrow> compareHands e a = (if RA \<in> rank ` set g then 0 else - 1))"
proof -
  let ?flush = "\<exists>s. \<forall>c\<in>set h. suit c = s"
  have ev: "evaluateHand h =
           Some \<lparr>htype = (if ?flush then StraightFlush else Straight),
                 hvalue = (if ?flush then 14000 else 1400)\<rparr>"
    using a23_eval[OF assms] .
  have "compareHands e a = (if RA \<in> rank ` set g then 0 else - 1)"
    if g: "evaluateHand g = Some e" and a: "evaluateHand h = Some a" and t: "htype e = htype a"
    for g e a
  proof (cases ?flush)
    case True
    hence "a = \<lparr>htype = StraightFlush, hvalue = 14000\<rparr>" using ev a by simp
    thus ?thesis using straightflush_cmp[OF g] t by simp
  next
    case False
    hence "a = \<lparr>htype = Straight, hvalue = 1400\<rparr>" using ev a by simp
    thus ?thesis using straight_cmp[OF g] t by simp
  qed
  thus ?thesis using ev by blast
qed

theorem a23_ace_high_straight_witness:
  "evaluateHand [Card RA Hearts, Card R2 Spades, Card R3 Diamonds] =
     Some \<lparr>htype = Straight, hvalue = 1400\<rparr>
   \<and> compareHands \<lparr>htype = Straight, hvalue = 400\<rparr> \<lparr>htype = Straight, hvalue = 1400\<rparr> = - 1"
proof -
  let ?h = "[Card RA Hearts, Card R2 Spades, Card R3 Diamonds]"
  have l: "length ?h = 3" by simp
  have r: "rank ` set ?h = {RA, R2, R3}" by auto
  have f: "\<not> (\<exists>s. \<forall>c\<in>set ?h. suit c = s)" by auto
  note th = a23_ace_high_straight[OF l r]
  have e: "evaluateHand ?h = Some \<lparr>htype = Straight, hvalue = 1400\<rparr>"
    using th f by presburger
  have "compareHands \<lparr>htype = Straight, hvalue = 400\<rparr> \<lparr>htype = Straight, hvalue = 1400\<rparr> =
          (if RA \<in> rank ` set [Card R2 Hearts, Card R3 Spades, Card R4 Diamonds] then 0 else - 1)"
    using th eval_234_mixed e by simp
  thus ?thesis using e by simp
qed

text \<open>
  The claim as written fails at the 2-3-4 straight: against A-2-3 it compares -1, not 1.
\<close>

theorem a23_lowest_counterexample:
  "evaluateHand [Card R2 Hearts, Card R3 Spades, Card R4 Diamonds] =
     Some \<lparr>htype = Straight, hvalue = 400\<rparr>
   \<and> evaluateHand [Card RA Hearts, Card R2 Spades, Card R3 Diamonds] =
     Some \<lparr>htype = Straight, hvalue = 1400\<rparr>
   \<and> compareHands \<lparr>htype = Straight, hvalue = 400\<rparr> \<lparr>htype = Straight, hvalue = 1400\<rparr> \<noteq> 1"
  unfolding eval_234_mixed eval_a23_mixed by (simp add: compareHands_def)

section \<open>Starting a hand: antes and the deal\<close>







lemma twoPlayerLobby_built:
  "\<exists>r. createRoom ''KH0001'' ''s1'' ''An'' = Inr r \<and> joinRoom (Some r) ''s2'' ''Binh'' = Inr twoPlayerLobby"
  by (simp add: createRoom_def joinRoom_def twoPlayerLobby_def trim_def isSpace_def toLowerCase_def lowerChar_def)




section \<open>The sample rooms\<close>

lemma firstHand_started: "startGame twoPlayerLobby ''s1'' createDeck = Inr firstHand"
  by (simp add: startGame_def firstHand_def twoPlayerLobby_def)

lemma firstHand_value:
  "firstHand =
    \<lparr>code = ''KH0001'', host = ''s1'',
      players =
        [\<lparr>pid = ''s1'', name = ''An'', money = 9900,
          hand = [Card RA Spades, Card RK Spades, Card RQ Spades],
          viewedCards = False, folded = False, currentBet = 100,
          position = 0, connected = True, allIn = False,
          actedThisRound = False\<rparr>,
       \<lparr>pid = ''s2'', name = ''Binh'', money = 9900,
          hand = [Card RJ Spades, Card R10 Spades, Card R9 Spades],
          viewedCards = False, folded = False, currentBet = 100,
          position = 1, connected = True, allIn = False,
          actedThisRound = False\<rparr>],
    gameState = Playing, currentRound = 1, dealerIndex = 0, pot = 200,
    deck = take 46 createDeck, currentTurn = 1, minBet = 100, tournamentRound = 1,
    tournamentPlayers = [0, 1], betHistory = [], lastRaise = None,
    handsPlayed = 1, startingPlayerCount = 2\<rparr>"
  by code_simp

lemma secondRound_reached:
  "serverRun (firstHand, 0) [Intent (PlaceBet ''s2'' 100), Intent (PlaceBet ''s1'' 100)]
     = Some (secondRound, 0)"
  by code_simp

lemma afterBigRaise_reached:
  "serverRun (firstHand, 0) [Intent (PlaceBet ''s2'' 19700)] = Some (afterBigRaise, 0)"
  by code_simp

section \<open>Placing a bet\<close>

lemma findSeat_Some: "findSeat ps sid = Some i \<Longrightarrow> i < length ps \<and> pid (ps ! i) = sid"
proof (induction ps arbitrary: i)
  case Nil
  then show ?case by simp
next
  case (Cons p ps)
  show ?case
  proof (cases "pid p = sid")
    case True
    then show ?thesis using Cons.prems by simp
  next
    case False
    then obtain j where j: "findSeat ps sid = Some j" "i = Suc j" using Cons.prems by auto
    from Cons.IH[OF j(1)] show ?thesis using j(2) by simp
  qed
qed

lemma findPlayer_Some:
  "findPlayer room sid = Some i \<Longrightarrow> i < length (players room) \<and> pid (players room ! i) = sid"
  unfolding findPlayer_def by (rule findSeat_Some)



section \<open>Going all-in\<close>



lemma compareHands_self: "compareHands h h = 0"
  by (simp add: compareHands_def)

section \<open>Hands of any length\<close>

lemma evaluateHandAny_empty: "evaluateHandAny [] = \<lparr>anyType = ThreeOfAKind, anyValue = NaN\<rparr>"
  by (simp add: evaluateHandAny_def jsSort_def rankAt_def nthOpt_def valueAt_def)

lemma compareHandsAny_self: "compareHandsAny h h = 0"
  by (cases "anyValue h") (simp_all add: compareHandsAny_def)

lemma compareHandsAny_Num:
  "compareHandsAny \<lparr>anyType = t1, anyValue = Num v1\<rparr> \<lparr>anyType = t2, anyValue = Num v2\<rparr>
     = compareHands \<lparr>htype = t1, hvalue = v1\<rparr> \<lparr>htype = t2, hvalue = v2\<rparr>"
  by (simp add: compareHandsAny_def compareHands_def)

lemma evaluateHandAny_sorted3:
  assumes "jsSort (\<lambda>a b. cvalue b - cvalue a) cards = [x, y, z]"
  shows "evaluateHandAny cards =
           \<lparr>anyType = htype (classify x y z), anyValue = Num (hvalue (classify x y z))\<rparr>"
proof -
  define T where "T = (rank x = rank y \<and> rank y = rank z)"
  define S where "S = (suit x = suit x \<and> suit y = suit x \<and> suit z = suit x)"
  define St where "St = ((cvalue x - cvalue y = 1 \<and> cvalue y - cvalue z = 1) \<or>
                         (cvalue x = 14 \<and> cvalue y = 3 \<and> cvalue z = 2))"
  define P where "P = (rank x = rank y)"
  define Q where "Q = (rank y = rank z)"
  have c: "classify x y z =
     (if T then \<lparr>htype = ThreeOfAKind, hvalue = cvalue x * 100\<rparr>
      else if S \<and> St then \<lparr>htype = StraightFlush, hvalue = cvalue x * 1000\<rparr>
      else if S then \<lparr>htype = Flush, hvalue = cvalue x * 10000 + cvalue y * 100 + cvalue z\<rparr>
      else if St then \<lparr>htype = Straight, hvalue = cvalue x * 100\<rparr>
      else if P then \<lparr>htype = Pair, hvalue = cvalue x * 100 + cvalue z\<rparr>
      else if Q then \<lparr>htype = Pair, hvalue = cvalue y * 100 + cvalue x\<rparr>
      else \<lparr>htype = HighCard, hvalue = cvalue x * 10000 + cvalue y * 100 + cvalue z\<rparr>)"
    unfolding classify_def Let_def T_def S_def St_def P_def Q_def by (rule refl)
  have v: "valueAt [x, y, z] 0 = Num (cvalue x)" "valueAt [x, y, z] 1 = Num (cvalue y)"
    "valueAt [x, y, z] 2 = Num (cvalue z)"
    by (simp_all add: valueAt_def nthOpt_def)
  have r: "rankAt [x, y, z] 0 = Some (rank x)" "rankAt [x, y, z] 1 = Some (rank y)"
    "rankAt [x, y, z] 2 = Some (rank z)"
    by (simp_all add: rankAt_def nthOpt_def)
  have ss: "list_all (\<lambda>c. Some (suit c) = map_option suit (nthOpt [x, y, z] 0)) [x, y, z] = S"
    by (auto simp: nthOpt_def S_def)
  have a: "evaluateHandAny cards =
     (if T then \<lparr>anyType = ThreeOfAKind, anyValue = Num (cvalue x * 100)\<rparr>
      else if S \<and> St then \<lparr>anyType = StraightFlush, anyValue = Num (cvalue x * 1000)\<rparr>
      else if S then \<lparr>anyType = Flush, anyValue = Num (cvalue x * 10000 + cvalue y * 100 + cvalue z)\<rparr>
      else if St then \<lparr>anyType = Straight, anyValue = Num (cvalue x * 100)\<rparr>
      else if P then \<lparr>anyType = Pair, anyValue = Num (cvalue x * 100 + cvalue z)\<rparr>
      else if Q then \<lparr>anyType = Pair, anyValue = Num (cvalue y * 100 + cvalue x)\<rparr>
      else \<lparr>anyType = HighCard, anyValue = Num (cvalue x * 10000 + cvalue y * 100 + cvalue z)\<rparr>)"
    unfolding evaluateHandAny_def assms Let_def v r ss
    by (simp add: T_def St_def P_def Q_def)
  show ?thesis unfolding a c
    by (cases T; cases S; cases St; cases P; cases Q; simp)
qed

lemma evaluateHandAny_three:
  assumes "evaluateHand cards = Some e"
  shows "evaluateHandAny cards = \<lparr>anyType = htype e, anyValue = Num (hvalue e)\<rparr>"
proof -
  obtain x y z where s: "jsSort (\<lambda>a b. cvalue b - cvalue a) cards = [x, y, z]"
    and e: "e = classify x y z"
    using assms by (auto simp: evaluateHand_def split: list.splits)
  show ?thesis using evaluateHandAny_sorted3[OF s] e by simp
qed

lemma compareHandsAny_three:
  assumes "evaluateHand a = Some x" and "evaluateHand b = Some y"
  shows "compareHandsAny (evaluateHandAny a) (evaluateHandAny b) = compareHands x y"
  using evaluateHandAny_three[OF assms(1)] evaluateHandAny_three[OF assms(2)]
  by (simp add: compareHandsAny_def compareHands_def)

section \<open>The duel\<close>

lemma compareCards_rejects:
  assumes "findPlayer room sid = Some i" and "findPlayer room target = Some j"
    and "currentRound room < 2 \<or> folded (players room ! i) \<or> folded (players room ! j)
         \<or> currentTurn room \<noteq> int i
         \<or> currentBet (players room ! i) <
             (if viewedCards (players room ! i) then minBet room else minBet room div 2)"
  shows "\<exists>e. compareCards room sid target = Inl e"
  using assms by (auto simp: compareCards_def advanceTurn_def Let_def)

lemma compareCards_gates:
  assumes "findPlayer room sid = Some i" and "findPlayer room target = Some j"
    and "compareCards room sid target = Inr r'"
  shows "\<not> folded (players room ! i) \<and> \<not> folded (players room ! j)
           \<and> 2 \<le> currentRound room \<and> currentTurn room = int i
           \<and> (if viewedCards (players room ! i) then minBet room else minBet room div 2)
                \<le> currentBet (players room ! i)"
proof -
  have g: "\<not> (folded (players room ! i) \<or> folded (players room ! j))"
    using assms by (auto simp: compareCards_def advanceTurn_def Let_def)
  have r: "\<not> currentRound room < 2"
    using assms g by (auto simp: compareCards_def advanceTurn_def Let_def)
  have t: "currentTurn room = int i"
    using assms g r by (auto simp: compareCards_def advanceTurn_def Let_def split: if_splits)
  have b: "\<not> currentBet (players room ! i) <
             (if viewedCards (players room ! i) then minBet room else minBet room div 2)"
    using assms g r t by (auto simp: compareCards_def advanceTurn_def Let_def split: if_splits)
  show ?thesis using g r t b by auto
qed

lemma compareCards_form:
  assumes "findPlayer room sid = Some i" and "findPlayer room target = Some j"
    and "\<not> folded (players room ! i)" and "\<not> folded (players room ! j)"
    and "2 \<le> currentRound room" and "currentTurn room = int i"
    and "(if viewedCards (players room ! i) then minBet room else minBet room div 2)
                \<le> currentBet (players room ! i)"
    and "result = compareHandsAny (evaluateHandAny (hand (players room ! i)))
                                  (evaluateHandAny (hand (players room ! j)))"
  shows "\<exists>r'. compareCards room sid target = Inr r' \<and> pot r' = pot room \<and>
          players r' = (if result > 0
                        then (players room)[j := (players room ! j)\<lparr>folded := True\<rparr>,
                                            i := (players room ! i)\<lparr>actedThisRound := True\<rparr>]
                        else if result < 0
                        then (players room)[i := (players room ! i)\<lparr>folded := True, actedThisRound := True\<rparr>]
                        else (players room)[i := (players room ! i)\<lparr>actedThisRound := True\<rparr>])"
proof -
  have i: "i < length (players room)" using findPlayer_Some[OF assms(1)] by simp
  have ne: "result > 0 \<Longrightarrow> i \<noteq> j"
    using assms(8) compareHandsAny_self by force
  consider "result > 0" | "result < 0" | "result = 0"
    by linarith
  thus ?thesis
  proof cases
    case 1
    thus ?thesis using assms i ne by (simp add: compareCards_def advanceTurn_def Let_def)
  next
    case 2
    thus ?thesis using assms i by (simp add: compareCards_def advanceTurn_def Let_def)
  next
    case 3
    thus ?thesis using assms i by (simp add: compareCards_def advanceTurn_def Let_def)
  qed
qed

lemma map_update_same: "i < length ps \<Longrightarrow> (map f ps)[i := f (ps ! i)] = map f ps"
  by (simp add: list_update_same_conv)

text \<open>
  Claim C7. With both players found, compare-cards is rejected whenever the round is below
  2, or one of the two has folded, or the challenger is not on turn, or the challenger's
  \<open>currentBet\<close> is below \<open>minBet\<close> (for a viewed hand) or \<open>minBet div 2\<close> (for an unviewed
  one); a rejection returns before any write. In every other case it is accepted, whatever
  the hands hold: the player whose evaluated hand compares lower is folded and the other is
  not, a draw folds neither, and the pot and every balance are as before. On hands of three
  cards the comparison is \<open>compareHands\<close> of \<open>evaluateHand\<close>. (The statement is about the
  handler up to its change of turn.)
\<close>

theorem compareCards_gate_and_duel:
  assumes "findPlayer room sid = Some i" and "findPlayer room target = Some j"
  shows "(currentRound room < 2 \<or> folded (players room ! i) \<or> folded (players room ! j)
           \<or> currentTurn room \<noteq> int i
           \<or> currentBet (players room ! i) <
               (if viewedCards (players room ! i) then minBet room else minBet room div 2)
          \<longrightarrow> (\<exists>e. compareCards room sid target = Inl e))
       \<and> (2 \<le> currentRound room \<and> \<not> folded (players room ! i) \<and> \<not> folded (players room ! j)
            \<and> currentTurn room = int i
            \<and> (if viewedCards (players room ! i) then minBet room else minBet room div 2)
                 \<le> currentBet (players room ! i)
          \<longrightarrow> (\<exists>r'. compareCards room sid target = Inr r'
                 \<and> pot r' = pot room
                 \<and> map money (players r') = map money (players room)
                 \<and> (compareHandsAny (evaluateHandAny (hand (players room ! i)))
                                     (evaluateHandAny (hand (players room ! j))) < 0 \<longrightarrow>
                       folded (players r' ! i) \<and> \<not> folded (players r' ! j))
                 \<and> (compareHandsAny (evaluateHandAny (hand (players room ! i)))
                                     (evaluateHandAny (hand (players room ! j))) > 0 \<longrightarrow>
                       folded (players r' ! j) \<and> \<not> folded (players r' ! i))
                 \<and> (compareHandsAny (evaluateHandAny (hand (players room ! i)))
                                     (evaluateHandAny (hand (players room ! j))) = 0 \<longrightarrow>
                       \<not> folded (players r' ! i) \<and> \<not> folded (players r' ! j))))
       \<and> (\<forall>h1 h2. evaluateHand (hand (players room ! i)) = Some h1
                 \<and> evaluateHand (hand (players room ! j)) = Some h2
              \<longrightarrow> compareHandsAny (evaluateHandAny (hand (players room ! i)))
                                   (evaluateHandAny (hand (players room ! j)))
                    = compareHands h1 h2)"
proof -
  let ?result = "compareHandsAny (evaluateHandAny (hand (players room ! i)))
                                 (evaluateHandAny (hand (players room ! j)))"
  have i: "i < length (players room)" using findPlayer_Some[OF assms(1)] by simp
  have j: "j < length (players room)" using findPlayer_Some[OF assms(2)] by simp
  have rej: "currentRound room < 2 \<or> folded (players room ! i) \<or> folded (players room ! j)
           \<or> currentTurn room \<noteq> int i
           \<or> currentBet (players room ! i) <
               (if viewedCards (players room ! i) then minBet room else minBet room div 2)
          \<longrightarrow> (\<exists>e. compareCards room sid target = Inl e)"
    using compareCards_rejects[OF assms] by blast
  have acc: "\<exists>r'. compareCards room sid target = Inr r'
                  \<and> pot r' = pot room
                  \<and> map money (players r') = map money (players room)
                  \<and> (?result < 0 \<longrightarrow> folded (players r' ! i) \<and> \<not> folded (players r' ! j))
                  \<and> (?result > 0 \<longrightarrow> folded (players r' ! j) \<and> \<not> folded (players r' ! i))
                  \<and> (?result = 0 \<longrightarrow> \<not> folded (players r' ! i) \<and> \<not> folded (players r' ! j))"
    if g: "2 \<le> currentRound room" "\<not> folded (players room ! i)" "\<not> folded (players room ! j)"
      "currentTurn room = int i"
      "(if viewedCards (players room ! i) then minBet room else minBet room div 2)
                  \<le> currentBet (players room ! i)"
  proof -
    obtain r' where r': "compareCards room sid target = Inr r'" "pot r' = pot room"
      "players r' = (if ?result > 0
                        then (players room)[j := (players room ! j)\<lparr>folded := True\<rparr>,
                                            i := (players room ! i)\<lparr>actedThisRound := True\<rparr>]
                        else if ?result < 0
                        then (players room)[i := (players room ! i)\<lparr>folded := True, actedThisRound := True\<rparr>]
                        else (players room)[i := (players room ! i)\<lparr>actedThisRound := True\<rparr>])"
      using compareCards_form[OF assms g(2,3,1,4,5) refl] by blast
    have ne: "?result \<noteq> 0 \<Longrightarrow> i \<noteq> j"
      using compareHandsAny_self by force
    consider "?result > 0" | "?result < 0" | "?result = 0"
      by linarith
    thus ?thesis
    proof cases
      case 1
      hence p: "players r' = (players room)[j := (players room ! j)\<lparr>folded := True\<rparr>,
                                            i := (players room ! i)\<lparr>actedThisRound := True\<rparr>]"
        using r'(3) by simp
      have "i \<noteq> j" using ne 1 by simp
      thus ?thesis using r'(1,2) p 1 i j g(2) by (simp add: map_update map_update_same)
    next
      case 2
      hence p: "players r' = (players room)[i := (players room ! i)\<lparr>folded := True, actedThisRound := True\<rparr>]"
        using r'(3) by simp
      have "i \<noteq> j" using ne 2 by simp
      thus ?thesis using r'(1,2) p 2 i j g(3) by (simp add: map_update map_update_same)
    next
      case 3
      hence p: "players r' = (players room)[i := (players room ! i)\<lparr>actedThisRound := True\<rparr>]"
        using r'(3) by simp
      show ?thesis using r'(1,2) p 3 i j g(2,3)
        by (cases "i = j") (simp_all add: map_update map_update_same)
    qed
  qed
  have three: "\<forall>h1 h2. evaluateHand (hand (players room ! i)) = Some h1
                 \<and> evaluateHand (hand (players room ! j)) = Some h2
              \<longrightarrow> ?result = compareHands h1 h2"
    using compareHandsAny_three by blast
  show ?thesis using rej acc three by blast
qed

lemma eval_j109_spades:
  "evaluateHand [Card RJ Spades, Card R10 Spades, Card R9 Spades] =
     Some \<lparr>htype = StraightFlush, hvalue = 11000\<rparr>"
  by (simp add: evaluateHand_def jsSort_def cvalue_def classify_def)

theorem compareCards_gate_and_duel_witness:
  "currentRound secondRound = 2
   \<and> (\<exists>r'. compareCards secondRound ''s2'' ''s1'' = Inr r' \<and> pot r' = 300
          \<and> map money (players r') = [9850, 9850]
          \<and> folded (players r' ! 1) \<and> \<not> folded (players r' ! 0))"
proof -
  have f: "findPlayer secondRound ''s2'' = Some 1" "findPlayer secondRound ''s1'' = Some 0"
    by (simp_all add: secondRound_def findPlayer_def)
  have g: "2 \<le> currentRound secondRound \<and> \<not> folded (players secondRound ! 1)
        \<and> \<not> folded (players secondRound ! 0) \<and> currentTurn secondRound = int 1
        \<and> (if viewedCards (players secondRound ! 1) then minBet secondRound
            else minBet secondRound div 2) \<le> currentBet (players secondRound ! 1)"
    by (simp add: secondRound_def)
  have e: "evaluateHand (hand (players secondRound ! 1)) = Some \<lparr>htype = StraightFlush, hvalue = 11000\<rparr>"
    "evaluateHand (hand (players secondRound ! 0)) = Some \<lparr>htype = StraightFlush, hvalue = 14000\<rparr>"
    using eval_j109_spades eval_akq_spades by (simp_all add: secondRound_def)
  have c: "compareHands \<lparr>htype = StraightFlush, hvalue = 11000\<rparr>
             \<lparr>htype = StraightFlush, hvalue = 14000\<rparr> < 0"
    by (simp add: compareHands_def)
  note th = compareCards_gate_and_duel[OF f]
  have res: "compareHandsAny (evaluateHandAny (hand (players secondRound ! 1)))
                     (evaluateHandAny (hand (players secondRound ! 0))) < 0"
    using th e c by auto
  have v: "currentRound secondRound = 2" "pot secondRound = 300"
    "map money (players secondRound) = [9850, 9850]"
    by (simp_all add: secondRound_def)
  from th g res
  obtain r' where "compareCards secondRound ''s2'' ''s1'' = Inr r'" "pot r' = pot secondRound"
    "map money (players r') = map money (players secondRound)"
    "folded (players r' ! 1) \<and> \<not> folded (players r' ! 0)"
    by blast
  thus ?thesis using v by auto
qed

text \<open>
  Before the first hand is dealt every hand is empty and evaluates to three-of-a-kind with
  the value \<^verbatim>\<open>NaN\<close>; the handlers accept intents in the lobby too, and after four bets
  there a duel is accepted and is a draw.
\<close>

lemma lobby_duel_is_a_draw:
  "map_option (\<lambda>(r, t). (currentRound r, map folded (players r), map (length \<circ> hand) (players r)))
     (serverRun (twoPlayerLobby, 0)
        [Intent (PlaceBet ''s1'' 100), Intent (PlaceBet ''s2'' 100),
         Intent (PlaceBet ''s1'' 100), Intent (PlaceBet ''s2'' 100),
         Intent (CompareCards ''s1'' ''s2'')])
   = Some (2, [False, False], [0, 0])"
  by code_simp

section \<open>After a hand: roster, end of the tournament, champion\<close>

lemma lastHandResolved_reached:
  "serverRun (firstHand, 0)
     [Intent (PlaceBet ''s2'' 200), Intent (Fold ''s1''), TimerFires createDeck,
      Intent (Fold ''s1'')]
   = Some (lastHandResolved\<lparr>gameState := Ended\<rparr>, 0)"
  by code_simp

lemma allInResolved_reached:
  "serverRun (afterBigRaise, 0) [Intent (AllIn ''s1'')]
     = Some (allInResolved\<lparr>gameState := Ended, tournamentPlayers := [1]\<rparr>, 0)"
  by code_simp

lemma set_insertBy: "set (insertBy cmp x xs) = insert x (set xs)"
  by (induction xs) auto

lemma set_jsSort: "set (jsSort cmp xs) = set xs"
  by (induction xs) (simp_all add: jsSort_def set_insertBy)

lemma distinct_insertBy: "distinct (insertBy cmp x xs) \<longleftrightarrow> x \<notin> set xs \<and> distinct xs"
  by (induction xs) (auto simp: set_insertBy)

lemma distinct_jsSort: "distinct (jsSort cmp xs) \<longleftrightarrow> distinct xs"
  by (induction xs) (simp_all add: jsSort_def distinct_insertBy set_jsSort[unfolded jsSort_def])

text \<open>A comparator that orders by a key, larger keys first.\<close>

lemma sorted_insertBy_key:
  assumes "\<And>a b. cmp a b \<le> 0 \<longleftrightarrow> key b \<le> (key a :: int)"
  shows "sorted_wrt (\<lambda>a b. key b \<le> key a) xs \<Longrightarrow>
         sorted_wrt (\<lambda>a b. key b \<le> key a) (insertBy cmp x xs)"
proof (induction xs)
  case Nil
  then show ?case by simp
next
  case (Cons y ys)
  show ?case
  proof (cases "cmp x y \<le> 0")
    case True
    hence "key y \<le> key x" using assms by simp
    hence "\<forall>z\<in>set (y # ys). key z \<le> key x" using Cons.prems by fastforce
    thus ?thesis using True Cons.prems by simp
  next
    case False
    hence "key x \<le> key y" using assms[of x y] by linarith
    thus ?thesis using False Cons by (auto simp: set_insertBy)
  qed
qed

lemma sorted_jsSort_key:
  assumes "\<And>a b. cmp a b \<le> 0 \<longleftrightarrow> key b \<le> (key a :: int)"
  shows "sorted_wrt (\<lambda>a b. key b \<le> key a) (jsSort cmp xs)"
proof (induction xs)
  case Nil
  then show ?case by (simp add: jsSort_def)
next
  case (Cons x xs)
  have "jsSort cmp (x # xs) = insertBy cmp x (jsSort cmp xs)" by (simp add: jsSort_def)
  thus ?case using sorted_insertBy_key[of cmp key, OF assms Cons.IH] by simp
qed

lemma afterHandEnded_fields:
  "tournamentPlayers (fst (afterHandEnded room)) =
      filter (\<lambda>tp. money (players room ! tp) > 0) (tournamentPlayers room)"
  "players (fst (afterHandEnded room)) = players room"
  "handsPlayed (fst (afterHandEnded room)) = handsPlayed room"
  "startingPlayerCount (fst (afterHandEnded room)) = startingPlayerCount room"
  "pot (fst (afterHandEnded room)) = pot room"
  by (simp_all add: afterHandEnded_def pruneRoster_def Let_def)

lemma afterHandEnded_outcome:
  "snd (afterHandEnded room) =
     (if tournamentEnded (pruneRoster room)
      then TournamentEnded
             (case tournamentPlayers (pruneRoster room) of [] \<Rightarrow> None | c # _ \<Rightarrow> Some c)
             (jsSort (\<lambda>a b. money (players room ! b) - money (players room ! a))
                     [0..<length (players room)])
      else NextHandScheduled)"
  "gameState (fst (afterHandEnded room)) =
     (if tournamentEnded (pruneRoster room) then Ended else gameState room)"
  by (simp_all add: afterHandEnded_def pruneRoster_def Let_def)

text \<open>
  Claim C8, as the code has it. \<^verbatim>\<open>afterHandEnded\<close> sets the roster to its members with a
  positive balance and leaves the players as they are. The tournament ends exactly when
  that roster has at most one member or \<open>handsPlayed\<close> has reached \<open>startingPlayerCount\<close>.
  When it ends, the phase becomes \<open>Ended\<close>, the rankings are all seats in descending order of
  balance, and the champion is the first member of the roster: the sole survivor when one
  is left, none when the roster is empty, and the first of those still solvent when the
  hand cap ends the tournament with several of them. Otherwise the next hand is scheduled
  and the phase is unchanged.
\<close>

theorem afterHandEnded_roster_and_end:
  fixes room :: room
  defines "roster \<equiv> filter (\<lambda>tp. money (players room ! tp) > 0) (tournamentPlayers room)"
  defines "ends \<equiv> (length roster \<le> 1 \<or> handsPlayed room \<ge> startingPlayerCount room)"
  shows "tournamentPlayers (fst (afterHandEnded room)) = roster
       \<and> players (fst (afterHandEnded room)) = players room
       \<and> (ends \<longrightarrow>
            gameState (fst (afterHandEnded room)) = Ended
          \<and> (\<exists>rankings.
                snd (afterHandEnded room) =
                  TournamentEnded (case roster of [] \<Rightarrow> None | c # _ \<Rightarrow> Some c) rankings
              \<and> set rankings = {0..<length (players room)} \<and> distinct rankings
              \<and> sorted_wrt (\<lambda>a b. money (players room ! a) \<ge> money (players room ! b)) rankings)
          \<and> (\<forall>c. roster = [c] \<longrightarrow>
                (\<exists>rankings. snd (afterHandEnded room) = TournamentEnded (Some c) rankings))
          \<and> (roster = [] \<longrightarrow>
                (\<exists>rankings. snd (afterHandEnded room) = TournamentEnded None rankings)))
       \<and> (\<not> ends \<longrightarrow>
            snd (afterHandEnded room) = NextHandScheduled
          \<and> gameState (fst (afterHandEnded room)) = gameState room)"
proof -
  let ?rk = "jsSort (\<lambda>a b. money (players room ! b) - money (players room ! a))
                     [0..<length (players room)]"
  have te: "tournamentEnded (pruneRoster room) = ends"
    by (simp add: tournamentEnded_def pruneRoster_def ends_def roster_def)
  have ro: "tournamentPlayers (pruneRoster room) = roster"
    by (simp add: pruneRoster_def roster_def)
  have rk: "set ?rk = {0..<length (players room)}" "distinct ?rk"
    "sorted_wrt (\<lambda>a b. money (players room ! a) \<ge> money (players room ! b)) ?rk"
    using sorted_jsSort_key[of "\<lambda>a b. money (players room ! b) - money (players room ! a)"
                              "\<lambda>a. money (players room ! a)" "[0..<length (players room)]"]
    by (simp_all add: set_jsSort distinct_jsSort)
  have out: "ends \<Longrightarrow> snd (afterHandEnded room) =
      TournamentEnded (case roster of [] \<Rightarrow> None | c # _ \<Rightarrow> Some c) ?rk"
    by (simp add: afterHandEnded_outcome te ro)
  have a: "tournamentPlayers (fst (afterHandEnded room)) = roster
       \<and> players (fst (afterHandEnded room)) = players room"
    by (simp add: afterHandEnded_fields roster_def)
  have b: "ends \<longrightarrow>
            gameState (fst (afterHandEnded room)) = Ended
          \<and> (\<exists>rankings.
                snd (afterHandEnded room) =
                  TournamentEnded (case roster of [] \<Rightarrow> None | c # _ \<Rightarrow> Some c) rankings
              \<and> set rankings = {0..<length (players room)} \<and> distinct rankings
              \<and> sorted_wrt (\<lambda>a b. money (players room ! a) \<ge> money (players room ! b)) rankings)
          \<and> (\<forall>c. roster = [c] \<longrightarrow>
                (\<exists>rankings. snd (afterHandEnded room) = TournamentEnded (Some c) rankings))
          \<and> (roster = [] \<longrightarrow>
                (\<exists>rankings. snd (afterHandEnded room) = TournamentEnded None rankings))"
  proof
    assume e: ends
    have 1: "gameState (fst (afterHandEnded room)) = Ended"
      using e by (simp add: afterHandEnded_outcome te)
    have 2: "\<exists>rankings.
                snd (afterHandEnded room) =
                  TournamentEnded (case roster of [] \<Rightarrow> None | c # _ \<Rightarrow> Some c) rankings
              \<and> set rankings = {0..<length (players room)} \<and> distinct rankings
              \<and> sorted_wrt (\<lambda>a b. money (players room ! a) \<ge> money (players room ! b)) rankings"
      using out[OF e] rk by blast
    have 3: "\<forall>c. roster = [c] \<longrightarrow>
                (\<exists>rankings. snd (afterHandEnded room) = TournamentEnded (Some c) rankings)"
      using out[OF e] by simp
    have 4: "roster = [] \<longrightarrow>
                (\<exists>rankings. snd (afterHandEnded room) = TournamentEnded None rankings)"
      using out[OF e] by simp
    show "gameState (fst (afterHandEnded room)) = Ended
          \<and> (\<exists>rankings.
                snd (afterHandEnded room) =
                  TournamentEnded (case roster of [] \<Rightarrow> None | c # _ \<Rightarrow> Some c) rankings
              \<and> set rankings = {0..<length (players room)} \<and> distinct rankings
              \<and> sorted_wrt (\<lambda>a b. money (players room ! a) \<ge> money (players room ! b)) rankings)
          \<and> (\<forall>c. roster = [c] \<longrightarrow>
                (\<exists>rankings. snd (afterHandEnded room) = TournamentEnded (Some c) rankings))
          \<and> (roster = [] \<longrightarrow>
                (\<exists>rankings. snd (afterHandEnded room) = TournamentEnded None rankings))"
      using 1 2 3 4 by blast
  qed
  have c: "\<not> ends \<longrightarrow>
            snd (afterHandEnded room) = NextHandScheduled
          \<and> gameState (fst (afterHandEnded room)) = gameState room"
    by (simp add: afterHandEnded_outcome te)
  show ?thesis using a b c by blast
qed


theorem afterHandEnded_roster_and_end_witness:
  "tournamentPlayers (fst (afterHandEnded allInResolved)) = [1]
   \<and> gameState (fst (afterHandEnded allInResolved)) = Ended
   \<and> (\<exists>rankings. snd (afterHandEnded allInResolved) = TournamentEnded (Some 1) rankings)"
proof -
  have r: "filter (\<lambda>tp. money (players allInResolved ! tp) > 0) (tournamentPlayers allInResolved)
             = [1]"
    by (simp add: allInResolved_def)
  show ?thesis
    using afterHandEnded_roster_and_end[of allInResolved] unfolding r by simp
qed

text \<open>
  The claim as written names the roster's sole survivor, or nobody, as champion. At the end
  of the second hand of a two-player tournament both players are solvent, the cap is
  reached, and the champion is seat 0, who holds less than seat 1.
\<close>

theorem champion_not_sole_survivor_counterexample:
  "afterHandEnded lastHandResolved =
     (lastHandResolved\<lparr>gameState := Ended\<rparr>, TournamentEnded (Some 0) [1, 0])
   \<and> tournamentPlayers lastHandResolved = [0, 1]
   \<and> map money (players lastHandResolved) = [9800, 10200]"
  by (simp add: afterHandEnded_def pruneRoster_def tournamentEnded_def lastHandResolved_def
        jsSort_def)

section \<open>Resolving a hand: the winners\<close>

text \<open>
  The branch of \<^verbatim>\<open>resolveHand\<close> for several active players, which no call of the handlers
  reaches (section \<open>The calls of resolveHand\<close> below), sorts by \<^verbatim>\<open>compareHands\<close> and then
  keeps every entry whose \<^verbatim>\<open>eval.value\<close> equals the best entry's, whatever its category. In
  \<open>showdownRoom\<close>, where the hand is not finished, seat 0 holds three fours (three-of-a-kind,
  value 400) and seat 1 holds 4-3-2 of mixed suits (straight, value 400): seat 1 compares
  lower, and both would be credited half of the pot of 200.
\<close>

lemma resolveHand_value_tie:
  "map_option (\<lambda>(res, r). (winner res, map money (players r))) (resolveHand showdownRoom)
     = Some (Some 0, [10000, 10000])
   \<and> evaluateHand (hand (players showdownRoom ! 0)) = Some \<lparr>htype = ThreeOfAKind, hvalue = 400\<rparr>
   \<and> evaluateHand (hand (players showdownRoom ! 1)) = Some \<lparr>htype = Straight, hvalue = 400\<rparr>
   \<and> compareHands \<lparr>htype = Straight, hvalue = 400\<rparr> \<lparr>htype = ThreeOfAKind, hvalue = 400\<rparr> = - 1
   \<and> \<not> isHandFinished showdownRoom"
  by code_simp

section \<open>The timer of the next hand\<close>

lemma afterHandEnded_scheduled_iff:
  "snd (afterHandEnded room) = NextHandScheduled \<longleftrightarrow> \<not> tournamentEnded (pruneRoster room)"
  by (simp add: afterHandEnded_def Let_def)

lemma afterHandEnded_scheduled_room:
  "snd (afterHandEnded room) = NextHandScheduled \<Longrightarrow>
     fst (afterHandEnded room) = pruneRoster room"
  by (simp add: afterHandEnded_def Let_def split: if_splits)

lemma finishAction_scheduled:
  assumes "finishAction room = Inr (room', Some (res, NextHandScheduled))"
  shows "\<not> tournamentEnded room'"
proof -
  define r1 where "r1 = (if isRoundComplete room then snd (checkAndAdvanceRound room) else room)"
  obtain r2 result where rs: "resolveHand r1 = Some (result, r2)"
    and ah: "afterHandEnded (pruneRoster r2) = (room', NextHandScheduled)"
    using assms unfolding finishAction_def Let_def r1_def[symmetric]
    by (auto split: if_splits option.splits prod.splits)
  have "snd (afterHandEnded (pruneRoster r2)) = NextHandScheduled" using ah by simp
  hence n: "\<not> tournamentEnded (pruneRoster (pruneRoster r2))"
    and "fst (afterHandEnded (pruneRoster r2)) = pruneRoster (pruneRoster r2)"
    using afterHandEnded_scheduled_iff afterHandEnded_scheduled_room by blast+
  thus ?thesis using ah by simp
qed

lemma handle_scheduled:
  assumes "handle (Some room) a = Inr (room', Some (res, NextHandScheduled))"
  shows "\<not> tournamentEnded room'"
proof (cases a)
  case (ViewCards sid)
  thus ?thesis using assms by (auto split: sum.splits)
next
  case (PlaceBet sid amount)
  thus ?thesis using assms finishAction_scheduled by (auto simp: andFinish_def split: sum.splits)
next
  case (Fold sid)
  thus ?thesis using assms finishAction_scheduled by (auto simp: andFinish_def split: sum.splits)
next
  case (AllIn sid)
  thus ?thesis using assms finishAction_scheduled by (auto simp: andFinish_def split: sum.splits)
next
  case (CompareCards sid target)
  thus ?thesis using assms finishAction_scheduled by (auto simp: andFinish_def split: sum.splits)
qed

lemma scheduled_pos: "0 < scheduled e \<Longrightarrow> \<exists>res. e = Some (res, NextHandScheduled)"
  by (cases e rule: scheduled.cases) auto

text \<open>
  Claim C9, as the code has it. The end of the tournament is tested only when a hand is
  resolved: \<^verbatim>\<open>afterHandEnded\<close> sets the timer exactly when the test fails, so an intent that
  sets a timer leaves a room in which the tournament has not ended, and a timer that fires
  in that room starts the next hand there. The callback itself tests nothing: whenever a
  timer is pending, its firing starts a hand, whatever the room has become since.
\<close>

theorem timer_set_only_when_not_ended:
  "(snd (afterHandEnded room) = NextHandScheduled \<longleftrightarrow> \<not> tournamentEnded (pruneRoster room))
   \<and> (serverStep (room, timers) (Intent a) = Some (room', timers') \<and> timers < timers'
        \<longrightarrow> timers' = timers + 1 \<and> \<not> tournamentEnded room')
   \<and> (serverStep (room, timers) (Intent a) = Some (room', timers') \<and> timers < timers'
        \<longrightarrow> serverStep (room', timers') (TimerFires shuffled)
              = Some (startNewHand room' shuffled, timers))
   \<and> (0 < timers \<longrightarrow>
        serverStep (room, timers) (TimerFires shuffled)
          = Some (startNewHand room shuffled, timers - 1))"
proof -
  have s: "timers' = timers + 1 \<and> \<not> tournamentEnded room'"
    if st: "serverStep (room, timers) (Intent a) = Some (room', timers')" and lt: "timers < timers'"
  proof -
    obtain e where h: "handle (Some room) a = Inr (room', e)" and t: "timers' = timers + scheduled e"
      using st by (auto split: sum.splits)
    have "0 < scheduled e" using t lt by simp
    then obtain res where e: "e = Some (res, NextHandScheduled)" using scheduled_pos by blast
    show ?thesis using handle_scheduled[of room a room' res] h e t by simp
  qed
  show ?thesis using s afterHandEnded_scheduled_iff[of room] by auto
qed

theorem timer_set_only_when_not_ended_witness:
  "serverStep (firstHand, 0) (Intent (Fold ''s2'')) \<noteq> None
   \<and> \<not> tournamentEnded (fst (the (serverStep (firstHand, 0) (Intent (Fold ''s2'')))))
   \<and> snd (the (serverStep (firstHand, 0) (Intent (Fold ''s2'')))) = 1"
proof -
  have ne: "serverStep (firstHand, 0) (Intent (Fold ''s2'')) \<noteq> None"
    by code_simp
  have t: "snd (the (serverStep (firstHand, 0) (Intent (Fold ''s2'')))) = 1"
    by code_simp
  obtain r where st: "serverStep (firstHand, 0) (Intent (Fold ''s2'')) = Some (r, 1)"
    using ne t by (cases "serverStep (firstHand, 0) (Intent (Fold ''s2''))") auto
  have "\<not> tournamentEnded r"
    using timer_set_only_when_not_ended[of firstHand 0 "Fold ''s2''" r 1] st by simp
  thus ?thesis using st by simp
qed

text \<open>
  The claim as written fails: seat 1 folds, seat 0 wins the first hand and a timer is set;
  during the delay seat 0 goes all-in, the hand is resolved again with nobody active, seat
  0 leaves the roster and the tournament ends; the timer then fires and a second hand is
  started in the ended room.
\<close>

theorem hand_started_after_end_counterexample:
  "serverRun (firstHand, 0) [Intent (Fold ''s2''), Intent (AllIn ''s1'')] = Some (endedWithTimer, 1)
   \<and> tournamentEnded endedWithTimer \<and> gameState endedWithTimer = Ended
   \<and> serverStep (endedWithTimer, 1) (TimerFires createDeck)
        = Some (startNewHand endedWithTimer createDeck, 0)
   \<and> handsPlayed (startNewHand endedWithTimer createDeck) = 2
   \<and> pot (startNewHand endedWithTimer createDeck) = 100
   \<and> map (length \<circ> hand) (players (startNewHand endedWithTimer createDeck)) = [0, 3]"
  by code_simp

section \<open>The pot during a hand\<close>

lemma scanSeats_ok:
  "idx < length ps \<Longrightarrow> scanSeats ok ps idx k = int i \<Longrightarrow> i < length ps \<and> ok (ps ! i)"
proof (induction k arbitrary: idx)
  case 0
  then show ?case by simp
next
  case (Suc k)
  show ?case
  proof (cases "ok (ps ! idx)")
    case True
    then show ?thesis using Suc.prems by simp
  next
    case False
    have "0 < length ps" using Suc.prems(1) by linarith
    hence "(idx + 1) mod length ps < length ps" by (rule mod_less_divisor)
    from Suc.IH[OF this] show ?thesis using False Suc.prems(2) by simp
  qed
qed

lemma getNextActivePlayerIndex_ok:
  "getNextActivePlayerIndex r s = int i \<Longrightarrow> i < length (players r) \<and> canAct (players r ! i)"
  unfolding getNextActivePlayerIndex_def Let_def
  using scanSeats_ok[of "(s + 1) mod length (players r)" "players r" canAct "length (players r)" i]
  by (auto split: if_splits)

lemma jsRem_seat: "0 < n \<Longrightarrow> nat (jsRem a (int n)) < n"
  by (auto simp: jsRem_def nat_less_iff)

lemma getFirstPlayerAfterDealer_ok:
  "getFirstPlayerAfterDealer r = int i \<Longrightarrow> i < length (players r) \<and> isActive (players r ! i)"
  unfolding getFirstPlayerAfterDealer_def
  using scanSeats_ok[of "nat (jsRem (dealerIndex r + 1) (int (length (players r))))" "players r"
           isActive "length (players r)" i] jsRem_seat[of "length (players r)" "dealerIndex r + 1"]
  by (auto split: if_splits)

lemma turnHasMoney_next:
  "players r' = players r \<Longrightarrow> currentTurn r' = getNextActivePlayerIndex r s \<Longrightarrow> turnHasMoney r'"
  unfolding turnHasMoney_def using getNextActivePlayerIndex_ok[of r s] by (auto simp: canAct_def)

lemma turnHasMoney_first:
  "players r' = players r \<Longrightarrow> currentTurn r' = getFirstPlayerAfterDealer r \<Longrightarrow> turnHasMoney r'"
  unfolding turnHasMoney_def using getFirstPlayerAfterDealer_ok[of r] by (auto simp: isActive_def)

lemma sum_map_update:
  fixes f :: "'a \<Rightarrow> int"
  shows "i < length ps \<Longrightarrow> sum_list (map f (ps[i := q])) = sum_list (map f ps) - f (ps ! i) + f q"
proof (induction ps arbitrary: i)
  case Nil
  then show ?case by simp
next
  case (Cons p ps)
  then show ?case by (cases i) simp_all
qed

lemma advanceTurn_fields:
  "players (advanceTurn x i) = players x" "pot (advanceTurn x i) = pot x"
  "minBet (advanceTurn x i) = minBet x"
  by (simp_all add: advanceTurn_def)

lemma turnHasMoney_advanceTurn: "turnHasMoney (advanceTurn x i)"
  by (rule turnHasMoney_next[of _ x i]) (simp_all add: advanceTurn_def)

lemma potInvariant_advanceTurn:
  "pot x = sum_list (map currentBet (players x)) \<Longrightarrow> 0 \<le> pot x \<Longrightarrow> 100 \<le> minBet x \<Longrightarrow>
     potInvariant (advanceTurn x i)"
  by (simp add: potInvariant_def advanceTurn_fields turnHasMoney_advanceTurn)

lemma placeBet_step:
  assumes inv: "potInvariant r" and acc: "placeBet r sid amount = Inr r'"
  shows "potInvariant r' \<and> pot r' = pot r + charged r (PlaceBet sid amount)
         \<and> 0 \<le> charged r (PlaceBet sid amount)"
proof -
  obtain i where f: "findPlayer r sid = Some i"
    using acc by (auto simp: placeBet_def split: option.splits)
  have i: "i < length (players r)" using findPlayer_Some[OF f] by simp
  define actual where "actual = (if \<not> viewedCards (players r ! i) then amount div 2 else amount)"
  have ch: "charged r (PlaceBet sid amount) = actual" by (simp add: f actual_def)
  have g: "minBet r \<le> amount" "actual \<le> money (players r ! i)"
    using acc f by (auto simp: placeBet_def Let_def actual_def split: if_splits)
  have m: "100 \<le> minBet r" "pot r = sum_list (map currentBet (players r))" "0 \<le> pot r"
    using inv by (simp_all add: potInvariant_def)
  have nn: "0 \<le> actual" using g(1) m(1) by (auto simp: actual_def)
  obtain x where x: "r' = advanceTurn x i"
    "players x = (players r)[i := (players r ! i)\<lparr>money := money (players r ! i) - actual,
                       currentBet := currentBet (players r ! i) + actual, actedThisRound := True\<rparr>]"
    "pot x = pot r + actual" "minBet x = (if amount > minBet r then amount else minBet r)"
    using acc f by (auto simp: placeBet_def Let_def actual_def split: if_splits)
  have s: "pot x = sum_list (map currentBet (players x))"
    unfolding x(2,3) using i m(2) by (simp add: sum_map_update)
  have "potInvariant r'" unfolding x(1)
    using s x(3,4) m nn g(1) by (intro potInvariant_advanceTurn) auto
  thus ?thesis using x ch nn by (simp add: advanceTurn_fields)
qed

lemma goAllIn_step:
  assumes inv: "potInvariant r" and acc: "goAllIn r sid = Inr r'"
  shows "potInvariant r' \<and> pot r' = pot r + charged r (AllIn sid)
         \<and> 0 \<le> charged r (AllIn sid)"
proof -
  obtain i where f: "findPlayer r sid = Some i"
    using acc by (auto simp: goAllIn_def split: option.splits)
  have i: "i < length (players r)" using findPlayer_Some[OF f] by simp
  define amt where "amt = money (players r ! i)"
  have ch: "charged r (AllIn sid) = amt" by (simp add: f amt_def)
  have t: "currentTurn r = int i"
    using acc f by (auto simp: goAllIn_def Let_def split: if_splits)
  have m: "100 \<le> minBet r" "pot r = sum_list (map currentBet (players r))" "0 \<le> pot r"
    "turnHasMoney r"
    using inv by (simp_all add: potInvariant_def)
  have nn: "0 \<le> amt" using m(4) t i by (auto simp: turnHasMoney_def amt_def)
  obtain x where x: "r' = advanceTurn x i"
    "players x = (players r)[i := (players r ! i)\<lparr>money := 0,
                       currentBet := currentBet (players r ! i) + amt, allIn := True,
                       actedThisRound := True\<rparr>]"
    "pot x = pot r + amt" "minBet x = (if amt > minBet r then amt else minBet r)"
    using acc f by (auto simp: goAllIn_def Let_def amt_def split: if_splits)
  have s: "pot x = sum_list (map currentBet (players x))"
    unfolding x(2,3) using i m(2) by (simp add: sum_map_update)
  have "potInvariant r'" unfolding x(1)
    using s x(3,4) m nn by (intro potInvariant_advanceTurn) auto
  thus ?thesis using x ch nn by (simp add: advanceTurn_fields)
qed

lemma foldHand_step:
  assumes inv: "potInvariant r" and acc: "foldHand r sid = Inr r'"
  shows "potInvariant r' \<and> pot r' = pot r"
proof -
  obtain i where f: "findPlayer r sid = Some i"
    using acc by (auto simp: foldHand_def split: option.splits)
  have i: "i < length (players r)" using findPlayer_Some[OF f] by simp
  have m: "100 \<le> minBet r" "pot r = sum_list (map currentBet (players r))" "0 \<le> pot r"
    using inv by (simp_all add: potInvariant_def)
  obtain x where x: "r' = advanceTurn x i"
    "players x = (players r)[i := (players r ! i)\<lparr>folded := True, actedThisRound := True\<rparr>]"
    "pot x = pot r" "minBet x = minBet r"
    using acc f by (auto simp: foldHand_def Let_def split: if_splits)
  have s: "pot x = sum_list (map currentBet (players x))"
    unfolding x(2,3) using i m(2) by (simp add: sum_map_update)
  have "potInvariant r'" unfolding x(1)
    using s x(3,4) m by (intro potInvariant_advanceTurn) auto
  thus ?thesis using x by (simp add: advanceTurn_fields)
qed

lemma viewCards_step:
  assumes inv: "potInvariant r" and acc: "viewCards r sid = Inr r'"
  shows "potInvariant r' \<and> pot r' = pot r"
proof -
  obtain i where f: "findPlayer r sid = Some i"
    using acc by (auto simp: viewCards_def split: option.splits)
  have i: "i < length (players r)" using findPlayer_Some[OF f] by simp
  have x: "players r' = (players r)[i := (players r ! i)\<lparr>viewedCards := True\<rparr>]"
    "pot r' = pot r" "minBet r' = minBet r" "currentTurn r' = currentTurn r"
    using acc f by (auto simp: viewCards_def Let_def split: if_splits)
  have s: "sum_list (map currentBet (players r')) = sum_list (map currentBet (players r))"
    unfolding x(1) using i by (simp add: sum_map_update)
  have t: "turnHasMoney r'" using inv i
    unfolding potInvariant_def turnHasMoney_def x(1,4)
    by (auto simp: nth_list_update)
  show ?thesis using inv s t x by (simp add: potInvariant_def)
qed

lemma compareCards_step:
  assumes inv: "potInvariant r" and acc: "compareCards r sid target = Inr r'"
  shows "potInvariant r' \<and> pot r' = pot r"
proof -
  obtain i where f: "findPlayer r sid = Some i"
    using acc by (auto simp: compareCards_def split: option.splits)
  obtain j where fj: "findPlayer r target = Some j"
    using acc f by (auto simp: compareCards_def split: option.splits)
  have i: "i < length (players r)" using findPlayer_Some[OF f] by simp
  have j: "j < length (players r)" using findPlayer_Some[OF fj] by simp
  have m: "100 \<le> minBet r" "pot r = sum_list (map currentBet (players r))" "0 \<le> pot r"
    using inv by (simp_all add: potInvariant_def)
  obtain x where x: "r' = advanceTurn x i" "pot x = pot r" "minBet x = minBet r"
    "map currentBet (players x) = map currentBet (players r)"
    using acc f fj i j
    by (auto simp: compareCards_def Let_def map_update map_update_same nth_list_update
             split: if_splits option.splits)
  have "potInvariant r'" unfolding x(1)
    using x(2,3,4) m by (intro potInvariant_advanceTurn) auto
  thus ?thesis using x by (simp add: advanceTurn_fields)
qed

lemma credit_length: "length (credit ps ws share) = length ps"
  by (induction ps ws share rule: credit.induct) simp_all

lemma credit_currentBet: "map currentBet (credit ps ws share) = map currentBet ps"
proof (induction ps ws share rule: credit.induct)
  case (1 ps share)
  then show ?case by simp
next
  case (2 ps w ws share)
  show ?case
  proof (cases "w < length ps")
    case True
    thus ?thesis using 2 by (simp add: map_update map_update_same)
  next
    case False
    hence "ps[w := (ps ! w)\<lparr>money := money (ps ! w) + share\<rparr>] = ps"
      by (simp add: list_update_beyond)
    thus ?thesis using 2 by simp
  qed
qed

lemma credit_money_mono:
  "0 \<le> share \<Longrightarrow> i < length ps \<Longrightarrow> money (ps ! i) \<le> money (credit ps ws share ! i)"
proof (induction ps ws share arbitrary: i rule: credit.induct)
  case (1 ps share)
  then show ?case by simp
next
  case (2 ps w ws share)
  let ?ps = "ps[w := (ps ! w)\<lparr>money := money (ps ! w) + share\<rparr>]"
  have "money (ps ! i) \<le> money (?ps ! i)"
    using "2.prems" by (cases "i = w") simp_all
  moreover have "money (?ps ! i) \<le> money (credit ?ps ws share ! i)"
    using "2.IH"[of i] "2.prems" by simp
  ultimately show ?case by simp
qed

lemma resolveHand_step:
  assumes "resolveHand r = Some (res, r')" and "0 \<le> pot r"
  shows "pot r' = pot r \<and> minBet r' = minBet r \<and> currentTurn r' = currentTurn r
       \<and> map currentBet (players r') = map currentBet (players r)
       \<and> length (players r') = length (players r)
       \<and> (\<forall>i < length (players r). money (players r ! i) \<le> money (players r' ! i))"
proof -
  let ?active = "filter (\<lambda>i. isActive (players r ! i)) [0..<length (players r)]"
  show ?thesis
  proof (cases "length ?active = 0")
    case True
    hence "r' = r" using assms(1) by (simp add: resolveHand_def Let_def)
    thus ?thesis by simp
  next
    case False
    then obtain winners where w: "findWinners r ?active = Some winners"
      using assms(1) by (auto simp: resolveHand_def Let_def split: option.splits)
    define ps where "ps = (if length winners > 1
                        then credit (players r) winners (pot r div int (length winners))
                        else if length winners = 1
                        then credit (players r) [hd winners] (pot r)
                        else players r)"
    have r': "r' = r\<lparr>players := ps\<rparr>"
      using assms(1) False w by (simp add: resolveHand_def Let_def ps_def)
    have sh: "0 \<le> pot r div int (length winners)"
      using assms(2) by (simp add: pos_imp_zdiv_nonneg_iff div_int_pos_iff)
    have 1: "map currentBet ps = map currentBet (players r)"
      by (simp add: ps_def credit_currentBet del: credit.simps)
    have 2: "length ps = length (players r)"
      by (simp add: ps_def credit_length del: credit.simps)
    have 3: "\<forall>i < length (players r). money (players r ! i) \<le> money (ps ! i)"
      using credit_money_mono[OF sh] credit_money_mono[OF assms(2)]
      by (simp add: ps_def del: credit.simps)
    show ?thesis using r' 1 2 3 by simp
  qed
qed

lemma pruneRoster_fields:
  "players (pruneRoster r) = players r" "pot (pruneRoster r) = pot r"
  "minBet (pruneRoster r) = minBet r" "currentTurn (pruneRoster r) = currentTurn r"
  by (simp_all add: pruneRoster_def)

lemma afterHandEnded_more_fields:
  "minBet (fst (afterHandEnded r)) = minBet r" "currentTurn (fst (afterHandEnded r)) = currentTurn r"
  by (simp_all add: afterHandEnded_def pruneRoster_def Let_def)

lemma checkAndAdvanceRound_inv:
  assumes "potInvariant r"
  shows "potInvariant (snd (checkAndAdvanceRound r)) \<and> pot (snd (checkAndAdvanceRound r)) = pot r"
proof (cases "length (filter isActive (players r)) \<le> 1")
  case True
  thus ?thesis using assms by (simp add: checkAndAdvanceRound_def Let_def)
next
  case False
  define r2 where "r2 = r\<lparr>players := map (\<lambda>p. p\<lparr>actedThisRound := False\<rparr>) (players r),
                             currentRound := currentRound r + 1\<rparr>"
  have e: "snd (checkAndAdvanceRound r) = r2\<lparr>currentTurn := getFirstPlayerAfterDealer r2\<rparr>"
    using False by (simp add: checkAndAdvanceRound_def Let_def r2_def)
  have t: "turnHasMoney (r2\<lparr>currentTurn := getFirstPlayerAfterDealer r2\<rparr>)"
    by (rule turnHasMoney_first[of _ r2]) simp_all
  have c: "currentBet \<circ> (\<lambda>p. p\<lparr>actedThisRound := False\<rparr>) = currentBet"
    by (simp add: fun_eq_iff)
  show ?thesis unfolding e using assms t
    by (simp add: potInvariant_def r2_def c)
qed

lemma finishAction_step:
  assumes inv: "potInvariant r" and acc: "finishAction r = Inr (r', e)"
  shows "potInvariant r' \<and> pot r' = pot r"
proof -
  define r1 where "r1 = (if isRoundComplete r then snd (checkAndAdvanceRound r) else r)"
  have i1: "potInvariant r1" "pot r1 = pot r"
    using checkAndAdvanceRound_inv[OF inv] inv by (simp_all add: r1_def)
  show ?thesis
  proof (cases "isHandFinished r1")
    case False
    hence "r' = r1" using acc unfolding finishAction_def Let_def r1_def[symmetric] by simp
    thus ?thesis using i1 by simp
  next
    case True
    then obtain res r2 where rs: "resolveHand r1 = Some (res, r2)"
      and r': "r' = fst (afterHandEnded (pruneRoster r2))"
      using acc unfolding finishAction_def Let_def r1_def[symmetric]
      by (auto split: option.splits prod.splits)
    have p0: "0 \<le> pot r1" using i1(1) by (simp add: potInvariant_def)
    note st = resolveHand_step[OF rs p0]
    have f: "players r' = players r2" "pot r' = pot r2" "minBet r' = minBet r2"
      "currentTurn r' = currentTurn r2"
      unfolding r' by (simp_all add: afterHandEnded_fields afterHandEnded_more_fields pruneRoster_fields)
    have t: "turnHasMoney r'"
      using i1(1) st unfolding potInvariant_def turnHasMoney_def f
      by (metis (no_types, lifting) less_le_trans)
    show ?thesis using i1 st f t by (simp add: potInvariant_def)
  qed
qed

lemma handle_step:
  assumes inv: "potInvariant r" and acc: "handle (Some r) a = Inr (r', e)"
  shows "potInvariant r' \<and> pot r' = pot r + charged r a \<and> 0 \<le> charged r a"
proof (cases a)
  case (ViewCards sid)
  then obtain x where "viewCards r sid = Inr x" "r' = x"
    using acc by (auto split: sum.splits)
  thus ?thesis using viewCards_step[OF inv] ViewCards by simp
next
  case (PlaceBet sid amount)
  then obtain x where x: "placeBet r sid amount = Inr x" "finishAction x = Inr (r', e)"
    using acc by (auto simp: andFinish_def split: sum.splits)
  show ?thesis using placeBet_step[OF inv x(1)] finishAction_step[OF _ x(2)] PlaceBet by simp
next
  case (Fold sid)
  then obtain x where x: "foldHand r sid = Inr x" "finishAction x = Inr (r', e)"
    using acc by (auto simp: andFinish_def split: sum.splits)
  show ?thesis using foldHand_step[OF inv x(1)] finishAction_step[OF _ x(2)] Fold by simp
next
  case (AllIn sid)
  then obtain x where x: "goAllIn r sid = Inr x" "finishAction x = Inr (r', e)"
    using acc by (auto simp: andFinish_def split: sum.splits)
  show ?thesis using goAllIn_step[OF inv x(1)] finishAction_step[OF _ x(2)] AllIn by simp
next
  case (CompareCards sid target)
  then obtain x where x: "compareCards r sid target = Inr x" "finishAction x = Inr (r', e)"
    using acc by (auto simp: andFinish_def split: sum.splits)
  show ?thesis using compareCards_step[OF inv x(1)] finishAction_step[OF _ x(2)] CompareCards
    by simp
qed

lemma playIntents_inv:
  "potInvariant r0 \<Longrightarrow> playIntents r0 as = Some r \<Longrightarrow>
     potInvariant r \<and> pot r = pot r0 + chargedTotal r0 as"
proof (induction as arbitrary: r0)
  case Nil
  then show ?case by simp
next
  case (Cons a as)
  obtain r1 e where h: "handle (Some r0) a = Inr (r1, e)" and rest: "playIntents r1 as = Some r"
    using Cons.prems(2) by (auto split: sum.splits)
  note st = handle_step[OF Cons.prems(1) h]
  from Cons.IH[OF _ rest] st h show ?case by simp
qed

lemma resetPlayer_bets:
  "resetPlayer p potNow d = (p', pot', d') \<Longrightarrow>
     pot' = potNow + currentBet p' \<and> 0 \<le> currentBet p'
     \<and> currentBet p' = (if money p > 0 then min 100 (money p) else 0)"
  by (auto simp: resetPlayer_def Let_def split: if_splits prod.splits)

lemma resetPlayers_bets:
  "resetPlayers ps potNow d = (ps', pot', d') \<Longrightarrow>
     pot' = potNow + sum_list (map currentBet ps') \<and> 0 \<le> sum_list (map currentBet ps')
     \<and> sum_list (map currentBet ps') =
         (\<Sum>p\<leftarrow>filter (\<lambda>p. money p > 0) ps. min 100 (money p))"
proof (induction ps arbitrary: potNow d ps' pot' d')
  case Nil
  then show ?case by simp
next
  case (Cons p ps)
  obtain p1 pot1 d1 where r1: "resetPlayer p potNow d = (p1, pot1, d1)"
    by (cases "resetPlayer p potNow d") auto
  obtain ps2 pot2 d2 where r2: "resetPlayers ps pot1 d1 = (ps2, pot2, d2)"
    by (cases "resetPlayers ps pot1 d1") auto
  have res: "ps' = p1 # ps2" "pot' = pot2"
    using Cons.prems r1 r2 by simp_all
  show ?case unfolding res using resetPlayer_bets[OF r1] Cons.IH[OF r2] by auto
qed

lemma startNewHand_potInvariant:
  "potInvariant (startNewHand room shuffled)
   \<and> pot (startNewHand room shuffled) =
        (\<Sum>p\<leftarrow>filter (\<lambda>p. money p > 0) (players room). min 100 (money p))"
proof -
  obtain ps potNow d where rp: "resetPlayers (players room) 0 shuffled = (ps, potNow, d)"
    by (cases "resetPlayers (players room) 0 shuffled") auto
  note b = resetPlayers_bets[OF rp]
  define r2 where "r2 = room\<lparr>pot := potNow, minBet := 100, currentRound := 1, betHistory := [],
                         lastRaise := None, deck := d, players := ps,
                         dealerIndex := jsRem (dealerIndex room + 1) (int (length ps))\<rparr>"
  have e: "startNewHand room shuffled =
      r2\<lparr>currentTurn := getFirstPlayerAfterDealer r2, handsPlayed := handsPlayed room + 1\<rparr>"
    using rp by (simp add: startNewHand_def Let_def r2_def)
  have t: "turnHasMoney (r2\<lparr>currentTurn := getFirstPlayerAfterDealer r2,
                             handsPlayed := handsPlayed room + 1\<rparr>)"
    by (rule turnHasMoney_first[of _ r2]) simp_all
  show ?thesis unfolding e using t b by (simp add: potInvariant_def r2_def)
qed

text \<open>
  The pot while every bet carries an amount that parsed (the intents of \<open>playIntents\<close>; a
  bet whose amount is \<^verbatim>\<open>NaN\<close> is the subject of the next section). Take any room with a seat
  and \<open>- 1 \<le> dealerIndex\<close>, start a hand in it and let any
  sequence of view-cards, place-bet, fold, all-in and compare-cards intents be accepted.
  In the room reached the pot is not negative, it equals the sum of the \<open>currentBet\<close> fields
  of all players, and it equals the antes charged by \<^verbatim>\<open>startNewHand\<close> plus the amounts
  charged by the accepted bets and all-ins. Any further accepted intent leaves a pot that
  is at least as large: the old pot plus what that intent charges.
\<close>

theorem pot_equals_bets_and_never_decreases:
  assumes "players room \<noteq> []" and "- 1 \<le> dealerIndex room"
    and "playIntents (startNewHand room shuffled) as = Some r"
  shows "0 \<le> pot r
       \<and> pot r = sum_list (map currentBet (players r))
       \<and> pot r = (\<Sum>p\<leftarrow>filter (\<lambda>p. money p > 0) (players room). min 100 (money p))
                 + chargedTotal (startNewHand room shuffled) as
       \<and> (\<forall>a r' e. handle (Some r) a = Inr (r', e) \<longrightarrow>
             pot r \<le> pot r' \<and> pot r' = pot r + charged r a)"
proof -
  note s = startNewHand_potInvariant[of room shuffled]
  have inv: "potInvariant r" and total: "pot r = pot (startNewHand room shuffled)
                 + chargedTotal (startNewHand room shuffled) as"
    using playIntents_inv[OF _ assms(3)] s by simp_all
  have next_step: "\<forall>a r' e. handle (Some r) a = Inr (r', e) \<longrightarrow>
             pot r \<le> pot r' \<and> pot r' = pot r + charged r a"
    using handle_step[OF inv] by auto
  have c1: "0 \<le> pot r" and c2: "pot r = sum_list (map currentBet (players r))"
    using inv by (simp_all add: potInvariant_def)
  have c3: "pot r = (\<Sum>p\<leftarrow>filter (\<lambda>p. money p > 0) (players room). min 100 (money p))
                 + chargedTotal (startNewHand room shuffled) as"
    using total s by simp
  show ?thesis using c1 c2 c3 next_step by (intro conjI)
qed

theorem pot_equals_bets_and_never_decreases_witness:
  "\<exists>r. playIntents firstHand [PlaceBet ''s2'' 200, ViewCards ''s1'', PlaceBet ''s1'' 200] = Some r
      \<and> pot r = 500 \<and> sum_list (map currentBet (players r)) = 500"
proof -
  let ?lobby = "twoPlayerLobby\<lparr>gameState := Playing, tournamentRound := 1,
                    tournamentPlayers := [0, 1], startingPlayerCount := 2, handsPlayed := 0\<rparr>"
  let ?as = "[PlaceBet ''s2'' 200, ViewCards ''s1'', PlaceBet ''s1'' 200]"
  have a: "players ?lobby \<noteq> []" "- 1 \<le> dealerIndex ?lobby"
    by (simp_all add: twoPlayerLobby_def)
  have ne: "playIntents firstHand ?as \<noteq> None" by code_simp
  have p: "map_option pot (playIntents firstHand ?as) = Some 500" by code_simp
  obtain r where r: "playIntents firstHand ?as = Some r" using ne by auto
  hence r': "playIntents (startNewHand ?lobby createDeck) ?as = Some r"
    by (simp add: firstHand_def)
  have "pot r = sum_list (map currentBet (players r))"
    using pot_equals_bets_and_never_decreases[OF a r'] by simp
  thus ?thesis using r p by simp
qed

section \<open>A bet whose amount does not parse\<close>

text \<open>
  On an amount that parsed, \<open>placeBetNumbers\<close> computes the numbers of \<open>placeBet\<close>.
\<close>

lemma placeBetNumbers_integer:
  assumes "findPlayer room sid = Some i" and "\<not> folded (players room ! i)"
    and "currentTurn room = int i"
  shows "placeBetNumbers (Num D) (viewedCards (players room ! i)) (numbersOf room i) =
           (case placeBet room sid D of Inl e \<Rightarrow> Inl e | Inr r' \<Rightarrow> Inr (numbersOf r' i))"
proof -
  have i: "i < length (players room)" using findPlayer_Some[OF assms(1)] by simp
  show ?thesis using assms i
    by (simp add: placeBetNumbers_def placeBet_def advanceTurn_def numbersOf_def Let_def)
qed

text \<open>
  Claim C4 says that in every room reached from \<^verbatim>\<open>startNewHand\<close> by accepted intents the pot
  is not negative, equals the sum of the \<open>currentBet\<close> fields and never decreases. That
  holds as long as every accepted bet carries an amount that parsed (theorem
  \<open>pot_equals_bets_and_never_decreases\<close>). It fails at a bet whose amount is \<^verbatim>\<open>NaN\<close>. In the
  first hand of the two-player room the second player is found, has not folded, is on turn
  and has not viewed; the balance is 9900, the \<open>currentBet\<close> 100, the pot 200 and \<open>minBet\<close>
  100, and the other player's \<open>currentBet\<close> is 100. For the amount \<^verbatim>\<open>NaN\<close> neither
  \<^verbatim>\<open>declaredAmount < room.minBet\<close> nor \<^verbatim>\<open>player.money < actualAmount\<close> is true: the bet is
  accepted, and the balance, the \<open>currentBet\<close> and the pot become \<^verbatim>\<open>NaN\<close>. Then
  \<^verbatim>\<open>0 <= room.pot\<close> is false, the pot is not the sum \<^verbatim>\<open>100 + NaN\<close> of the \<open>currentBet\<close>
  fields, and \<^verbatim>\<open>200 <= room.pot\<close>, the pot before against the pot after, is false.
\<close>

theorem nan_bet_is_accepted:
  "findPlayer firstHand ''s2'' = Some 1 \<and> \<not> folded (players firstHand ! 1)
   \<and> currentTurn firstHand = 1 \<and> \<not> viewedCards (players firstHand ! 1)
   \<and> numbersOf firstHand 1 =
       \<lparr>playerMoney = Num 9900, playerCurrentBet = Num 100, roomPot = Num 200,
        roomMinBet = Num 100\<rparr>
   \<and> currentBet (players firstHand ! 0) = 100
   \<and> placeBetNumbers NaN (viewedCards (players firstHand ! 1)) (numbersOf firstHand 1) =
       Inr \<lparr>playerMoney = NaN, playerCurrentBet = NaN, roomPot = NaN, roomMinBet = Num 100\<rparr>
   \<and> \<not> jsLessEq (Num 0) NaN
   \<and> \<not> jsEq NaN (jsAdd (Num 100) NaN)
   \<and> \<not> jsLessEq (Num 200) NaN"
  by (simp add: firstHand_value findPlayer_def numbersOf_def placeBetNumbers_def)


section \<open>The calls of resolveHand\<close>

text \<open>
  In a finished hand where no all-in player has money, at most one player is active.
\<close>

lemma allInHasNoMoney_nth:
  "allInHasNoMoney r \<longleftrightarrow> (\<forall>j < length (players r). allIn (players r ! j) \<longrightarrow> money (players r ! j) \<le> 0)"
  by (simp add: allInHasNoMoney_def list_all_length)

lemma active_seats:
  "map (\<lambda>i. ps ! i) (filter (\<lambda>i. P (ps ! i)) [0..<length ps]) = filter P ps"
proof -
  have "filter P (map (\<lambda>i. ps ! i) [0..<length ps]) =
        map (\<lambda>i. ps ! i) (filter (P \<circ> (\<lambda>i. ps ! i)) [0..<length ps])"
    by (rule filter_map)
  thus ?thesis by (simp add: map_nth comp_def)
qed

lemma active_seats_length:
  "length (filter (\<lambda>i. P (ps ! i)) [0..<length ps]) = length (filter P ps)"
  using arg_cong[OF active_seats[of ps P], of length] by simp

lemma finished_one_active:
  assumes "isHandFinished room" and "allInHasNoMoney room"
  shows "length (filter isActive (players room)) \<le> 1"
proof (rule ccontr)
  assume "\<not> length (filter isActive (players room)) \<le> 1"
  hence many: "1 < length (filter isActive (players room))" by simp
  hence e: "filter (\<lambda>p. \<not> allIn p \<and> money p > 0) (filter isActive (players room)) = []"
    using assms(1) by (simp add: isHandFinished_def Let_def)
  obtain p where p: "p \<in> set (filter isActive (players room))"
    using many by (cases "filter isActive (players room)") auto
  hence a: "p \<in> set (players room)" "money p > 0" by (auto simp: isActive_def)
  have "\<not> (\<not> allIn p \<and> money p > 0)"
    using e p by (metis (mono_tags, lifting) filter_empty_conv)
  hence "allIn p" using a(2) by simp
  hence "money p \<le> 0" using assms(2) a(1) by (auto simp: allInHasNoMoney_def list_all_iff)
  thus False using a(2) by simp
qed

lemma resolveHand_none_active:
  assumes "filter (\<lambda>i. isActive (players room ! i)) [0..<length (players room)] = []"
  shows "resolveHand room = Some (\<lparr>winner = None, eliminated = [], resultPot = pot room\<rparr>, room)"
  using assms by (simp add: resolveHand_def Let_def)

lemma resolveHand_one_active:
  assumes "filter (\<lambda>i. isActive (players room ! i)) [0..<length (players room)] = [i]"
  shows "resolveHand room =
           Some (\<lparr>winner = Some i,
                  eliminated = filter (\<lambda>k. money (((players room)[i := (players room ! i)
                                     \<lparr>money := money (players room ! i) + pot room\<rparr>]) ! k) \<le> 0)
                                 [0..<length (players room)],
                  resultPot = pot room\<rparr>,
                 room\<lparr>players := (players room)[i := (players room ! i)
                                     \<lparr>money := money (players room ! i) + pot room\<rparr>]\<rparr>)"
  using assms by (simp add: resolveHand_def findWinners_def Let_def)

text \<open>
  The handlers keep \<open>allInHasNoMoney\<close>.
\<close>

lemma allInHasNoMoney_update:
  assumes "allInHasNoMoney r" and "i < length (players r)"
    and "players x = (players r)[i := q]" and "allIn q \<longrightarrow> money q \<le> 0"
  shows "allInHasNoMoney x"
  using assms unfolding allInHasNoMoney_nth by (auto simp: nth_list_update)

lemma allInHasNoMoney_advanceTurn: "allInHasNoMoney (advanceTurn x i) = allInHasNoMoney x"
  by (simp add: allInHasNoMoney_def advanceTurn_def)

lemma placeBet_allIn:
  assumes inv: "potInvariant r" "allInHasNoMoney r" and acc: "placeBet r sid amount = Inr r'"
  shows "allInHasNoMoney r'"
proof -
  obtain i where f: "findPlayer r sid = Some i"
    using acc by (auto simp: placeBet_def split: option.splits)
  have i: "i < length (players r)" using findPlayer_Some[OF f] by simp
  define actual where "actual = (if \<not> viewedCards (players r ! i) then amount div 2 else amount)"
  have g: "minBet r \<le> amount" "actual \<le> money (players r ! i)"
    using acc f by (auto simp: placeBet_def Let_def actual_def split: if_splits)
  have m: "100 \<le> minBet r" using inv(1) by (simp add: potInvariant_def)
  have nn: "0 \<le> actual" using g(1) m by (auto simp: actual_def)
  obtain x where x: "r' = advanceTurn x i"
    "players x = (players r)[i := (players r ! i)\<lparr>money := money (players r ! i) - actual,
                       currentBet := currentBet (players r ! i) + actual, actedThisRound := True\<rparr>]"
    using acc f by (auto simp: placeBet_def Let_def actual_def split: if_splits)
  have old: "allIn (players r ! i) \<longrightarrow> money (players r ! i) \<le> 0"
    using inv(2) i by (simp add: allInHasNoMoney_nth)
  have "allInHasNoMoney x"
    using old nn by (intro allInHasNoMoney_update[OF inv(2) i x(2)]) auto
  thus ?thesis by (simp add: x(1) allInHasNoMoney_advanceTurn)
qed

lemma goAllIn_allIn:
  assumes inv: "allInHasNoMoney r" and acc: "goAllIn r sid = Inr r'"
  shows "allInHasNoMoney r'"
proof -
  obtain i where f: "findPlayer r sid = Some i"
    using acc by (auto simp: goAllIn_def split: option.splits)
  have i: "i < length (players r)" using findPlayer_Some[OF f] by simp
  obtain x where x: "r' = advanceTurn x i"
    "players x = (players r)[i := (players r ! i)\<lparr>money := 0,
                       currentBet := currentBet (players r ! i) + money (players r ! i),
                       allIn := True, actedThisRound := True\<rparr>]"
    using acc f by (auto simp: goAllIn_def Let_def split: if_splits)
  have "allInHasNoMoney x"
    by (intro allInHasNoMoney_update[OF inv i x(2)]) auto
  thus ?thesis by (simp add: x(1) allInHasNoMoney_advanceTurn)
qed

lemma foldHand_allIn:
  assumes inv: "allInHasNoMoney r" and acc: "foldHand r sid = Inr r'"
  shows "allInHasNoMoney r'"
proof -
  obtain i where f: "findPlayer r sid = Some i"
    using acc by (auto simp: foldHand_def split: option.splits)
  have i: "i < length (players r)" using findPlayer_Some[OF f] by simp
  obtain x where x: "r' = advanceTurn x i"
    "players x = (players r)[i := (players r ! i)\<lparr>folded := True, actedThisRound := True\<rparr>]"
    using acc f by (auto simp: foldHand_def Let_def split: if_splits)
  have old: "allIn (players r ! i) \<longrightarrow> money (players r ! i) \<le> 0"
    using inv i by (simp add: allInHasNoMoney_nth)
  have "allInHasNoMoney x"
    using old by (intro allInHasNoMoney_update[OF inv i x(2)]) auto
  thus ?thesis by (simp add: x(1) allInHasNoMoney_advanceTurn)
qed

lemma viewCards_allIn:
  assumes inv: "allInHasNoMoney r" and acc: "viewCards r sid = Inr r'"
  shows "allInHasNoMoney r'"
proof -
  obtain i where f: "findPlayer r sid = Some i"
    using acc by (auto simp: viewCards_def split: option.splits)
  have i: "i < length (players r)" using findPlayer_Some[OF f] by simp
  have x: "players r' = (players r)[i := (players r ! i)\<lparr>viewedCards := True\<rparr>]"
    using acc f by (auto simp: viewCards_def Let_def split: if_splits)
  have old: "allIn (players r ! i) \<longrightarrow> money (players r ! i) \<le> 0"
    using inv i by (simp add: allInHasNoMoney_nth)
  show ?thesis
    using old by (intro allInHasNoMoney_update[OF inv i x]) auto
qed

lemma compareCards_allIn:
  assumes inv: "allInHasNoMoney r" and acc: "compareCards r sid target = Inr r'"
  shows "allInHasNoMoney r'"
proof -
  obtain i where f: "findPlayer r sid = Some i"
    using acc by (auto simp: compareCards_def split: option.splits)
  obtain j where fj: "findPlayer r target = Some j"
    using acc f by (auto simp: compareCards_def split: option.splits)
  have i: "i < length (players r)" using findPlayer_Some[OF f] by simp
  have j: "j < length (players r)" using findPlayer_Some[OF fj] by simp
  obtain x where x: "r' = advanceTurn x i"
    "map allIn (players x) = map allIn (players r)" "map money (players x) = map money (players r)"
    using acc f fj i j
    by (auto simp: compareCards_def Let_def map_update map_update_same nth_list_update
             split: if_splits)
  have l: "length (players x) = length (players r)"
    using arg_cong[OF x(2), of length] by simp
  have "allIn (players x ! k) = allIn (players r ! k) \<and> money (players x ! k) = money (players r ! k)"
    if "k < length (players r)" for k
    using that l arg_cong[OF x(2), of "\<lambda>xs. xs ! k"] arg_cong[OF x(3), of "\<lambda>xs. xs ! k"]
    by simp
  hence "allInHasNoMoney x" using inv l by (simp add: allInHasNoMoney_nth)
  thus ?thesis by (simp add: x(1) allInHasNoMoney_advanceTurn)
qed

lemma checkAndAdvanceRound_allIn:
  "allInHasNoMoney (snd (checkAndAdvanceRound r)) = allInHasNoMoney r"
  by (simp add: checkAndAdvanceRound_def Let_def allInHasNoMoney_def list_all_iff)

lemma checkAndAdvanceRound_finished:
  "allInHasNoMoney r \<Longrightarrow>
     allInHasNoMoney (if isRoundComplete r then snd (checkAndAdvanceRound r) else r)"
  by (simp add: checkAndAdvanceRound_allIn)

lemma length_le_one_cases: "length xs \<le> 1 \<Longrightarrow> xs = [] \<or> (\<exists>x. xs = [x])"
  by (cases xs) auto

lemma resolveHand_finished:
  assumes "isHandFinished r" and "allInHasNoMoney r"
  shows "\<exists>res r'. resolveHand r = Some (res, r') \<and> allInHasNoMoney r'"
proof -
  let ?active = "filter (\<lambda>i. isActive (players r ! i)) [0..<length (players r)]"
  have "length ?active \<le> 1"
    using finished_one_active[OF assms] by (simp add: active_seats_length)
  then consider "?active = []" | i where "?active = [i]"
    using length_le_one_cases by blast
  thus ?thesis
  proof cases
    case 1
    thus ?thesis using resolveHand_none_active[OF 1] assms(2) by simp
  next
    case 2
    have "i \<in> set ?active" using 2 by simp
    hence i: "i < length (players r)" and a: "isActive (players r ! i)" by simp_all
    have "\<not> allIn (players r ! i)"
      using a assms(2) i by (auto simp: isActive_def allInHasNoMoney_nth)
    hence "allInHasNoMoney (r\<lparr>players := (players r)[i := (players r ! i)
                                     \<lparr>money := money (players r ! i) + pot r\<rparr>]\<rparr>)"
      by (intro allInHasNoMoney_update[OF assms(2) i]) auto
    thus ?thesis using resolveHand_one_active[OF 2] by simp
  qed
qed

lemma afterHandEnded_allIn:
  "allInHasNoMoney (fst (afterHandEnded (pruneRoster r))) = allInHasNoMoney r"
  by (simp add: allInHasNoMoney_def afterHandEnded_fields pruneRoster_def)

text \<open>
  The end of a handler never stops at the mark \<open>HandNotThreeCards\<close>, and it keeps the
  invariant.
\<close>

lemma finishAction_accepts:
  assumes "allInHasNoMoney x"
  shows "\<exists>r' e. finishAction x = Inr (r', e) \<and> allInHasNoMoney r'"
proof -
  define r1 where "r1 = (if isRoundComplete x then snd (checkAndAdvanceRound x) else x)"
  have i1: "allInHasNoMoney r1" using assms by (simp add: r1_def checkAndAdvanceRound_allIn)
  show ?thesis
  proof (cases "isHandFinished r1")
    case False
    thus ?thesis using i1 unfolding finishAction_def Let_def r1_def[symmetric] by simp
  next
    case True
    obtain res r2 where rs: "resolveHand r1 = Some (res, r2)" and i2: "allInHasNoMoney r2"
      using resolveHand_finished[OF True i1] by blast
    obtain r3 out where ah: "afterHandEnded (pruneRoster r2) = (r3, out)"
      by (cases "afterHandEnded (pruneRoster r2)") auto
    have "allInHasNoMoney r3" using afterHandEnded_allIn[of r2] i2 ah by simp
    thus ?thesis using True rs ah unfolding finishAction_def Let_def r1_def[symmetric] by simp
  qed
qed

lemma finishAction_allIn:
  "allInHasNoMoney x \<Longrightarrow> finishAction x = Inr (r', e) \<Longrightarrow> allInHasNoMoney r'"
  using finishAction_accepts[of x] by auto

lemma handle_allIn:
  assumes inv: "potInvariant r" "allInHasNoMoney r" and acc: "handle (Some r) a = Inr (r', e)"
  shows "allInHasNoMoney r'"
proof (cases a)
  case (ViewCards sid)
  then obtain x where "viewCards r sid = Inr x" "r' = x"
    using acc by (auto split: sum.splits)
  thus ?thesis using viewCards_allIn[OF inv(2)] by simp
next
  case (PlaceBet sid amount)
  then obtain x where x: "placeBet r sid amount = Inr x" "finishAction x = Inr (r', e)"
    using acc by (auto simp: andFinish_def split: sum.splits)
  show ?thesis using finishAction_allIn[OF placeBet_allIn[OF inv x(1)] x(2)] .
next
  case (Fold sid)
  then obtain x where x: "foldHand r sid = Inr x" "finishAction x = Inr (r', e)"
    using acc by (auto simp: andFinish_def split: sum.splits)
  show ?thesis using finishAction_allIn[OF foldHand_allIn[OF inv(2) x(1)] x(2)] .
next
  case (AllIn sid)
  then obtain x where x: "goAllIn r sid = Inr x" "finishAction x = Inr (r', e)"
    using acc by (auto simp: andFinish_def split: sum.splits)
  show ?thesis using finishAction_allIn[OF goAllIn_allIn[OF inv(2) x(1)] x(2)] .
next
  case (CompareCards sid target)
  then obtain x where x: "compareCards r sid target = Inr x" "finishAction x = Inr (r', e)"
    using acc by (auto simp: andFinish_def split: sum.splits)
  show ?thesis using finishAction_allIn[OF compareCards_allIn[OF inv(2) x(1)] x(2)] .
qed

lemma resetPlayers_allIn:
  "resetPlayers ps potNow d = (ps', pot', d') \<Longrightarrow> list_all (\<lambda>p. \<not> allIn p) ps'"
proof (induction ps arbitrary: potNow d ps' pot' d')
  case Nil
  then show ?case by simp
next
  case (Cons p ps)
  obtain p1 pot1 d1 where r1: "resetPlayer p potNow d = (p1, pot1, d1)"
    by (cases "resetPlayer p potNow d") auto
  obtain ps2 pot2 d2 where r2: "resetPlayers ps pot1 d1 = (ps2, pot2, d2)"
    by (cases "resetPlayers ps pot1 d1") auto
  have res: "ps' = p1 # ps2" using Cons.prems r1 r2 by simp
  have "\<not> allIn p1" using r1 by (auto simp: resetPlayer_def Let_def split: if_splits prod.splits)
  thus ?case unfolding res using Cons.IH[OF r2] by simp
qed

lemma startNewHand_allIn: "allInHasNoMoney (startNewHand room shuffled)"
proof -
  obtain ps potNow d where rp: "resetPlayers (players room) 0 shuffled = (ps, potNow, d)"
    by (cases "resetPlayers (players room) 0 shuffled") auto
  have "players (startNewHand room shuffled) = ps"
    using rp by (simp add: startNewHand_def Let_def)
  thus ?thesis using resetPlayers_allIn[OF rp] by (simp add: allInHasNoMoney_def list_all_iff)
qed

text \<open>
  Every room the server reaches from a room that has the invariants (the lobby has them)
  has them too: \<^verbatim>\<open>resolveHand\<close> is called only where \<open>isHandFinished\<close> and
  \<open>allInHasNoMoney\<close> hold.
\<close>

lemma serverStep_invariants:
  assumes "potInvariant r" "allInHasNoMoney r" and "serverStep (r, t) ev = Some (r', t')"
  shows "potInvariant r' \<and> allInHasNoMoney r'"
proof (cases ev)
  case (Intent a)
  then obtain e where h: "handle (Some r) a = Inr (r', e)"
    using assms(3) by (auto split: sum.splits)
  show ?thesis using handle_step[OF assms(1) h] handle_allIn[OF assms(1,2) h] by simp
next
  case (TimerFires d)
  hence "r' = startNewHand r d" using assms(3) by (auto split: if_splits)
  thus ?thesis using startNewHand_potInvariant[of r d] startNewHand_allIn[of r d] by simp
qed

lemma serverRun_invariants:
  "potInvariant r \<Longrightarrow> allInHasNoMoney r \<Longrightarrow> serverRun (r, t) evs = Some (r', t') \<Longrightarrow>
     potInvariant r' \<and> allInHasNoMoney r'"
proof (induction evs arbitrary: r t)
  case Nil
  then show ?case by simp
next
  case (Cons ev evs)
  obtain r1 t1 where s: "serverStep (r, t) ev = Some (r1, t1)"
    and rest: "serverRun (r1, t1) evs = Some (r', t')"
    using Cons.prems(3) by (auto split: option.splits)
  note i = serverStep_invariants[OF Cons.prems(1,2) s]
  show ?case using Cons.IH[OF _ _ rest] i by simp
qed

lemma createRoom_invariants:
  "createRoom roomCode sid nameSent = Inr r \<Longrightarrow> potInvariant r \<and> allInHasNoMoney r"
  by (auto simp: createRoom_def potInvariant_def turnHasMoney_def allInHasNoMoney_def
           split: if_splits)

lemma joinRoom_invariants:
  assumes "potInvariant r" "allInHasNoMoney r" and "joinRoom (Some r) sid nameSent = Inr r'"
  shows "potInvariant r' \<and> allInHasNoMoney r'"
proof -
  have r': "r' = r\<lparr>players := players r @
                         [\<lparr>pid = sid, name = trim nameSent, money = 10000, hand = [],
                           viewedCards = False, folded = False, currentBet = 0,
                           position = length (players r), connected = True, allIn = False,
                           actedThisRound = False\<rparr>]\<rparr>"
    using assms(3) by (auto simp: joinRoom_def split: if_splits)
  show ?thesis unfolding r' using assms(1,2)
    by (auto simp: potInvariant_def turnHasMoney_def allInHasNoMoney_def nth_append)
qed

lemma startGame_invariants:
  "startGame r sid shuffled = Inr r' \<Longrightarrow> potInvariant r' \<and> allInHasNoMoney r'"
  using startNewHand_potInvariant startNewHand_allIn
  by (auto simp: startGame_def split: if_splits)

text \<open>
  A disconnect changes no balance, no bet and no all-in flag.
\<close>

lemma disconnect_invariants:
  assumes "potInvariant r" "allInHasNoMoney r" and "disconnect r sid = Some r'"
  shows "potInvariant r' \<and> allInHasNoMoney r'"
proof (cases "findPlayer r sid")
  case None
  thus ?thesis using assms by (simp add: disconnect_def)
next
  case (Some i)
  have i: "i < length (players r)" using findPlayer_Some[OF Some] by simp
  obtain q where q: "players r' = (players r)[i := q]" "money q = money (players r ! i)"
    "currentBet q = currentBet (players r ! i)" "allIn q = allIn (players r ! i)"
    and same: "pot r' = pot r" "minBet r' = minBet r" "currentTurn r' = currentTurn r"
    using assms(3) Some i by (auto simp: disconnect_def Let_def split: if_splits)
  have bets: "map currentBet (players r') = map currentBet (players r)"
    using map_update_same[OF i, of currentBet] q by (simp add: map_update)
  have old: "allIn (players r ! i) \<longrightarrow> money (players r ! i) \<le> 0"
    using assms(2) i by (simp add: allInHasNoMoney_nth)
  have a: "allInHasNoMoney r'"
    using old q by (intro allInHasNoMoney_update[OF assms(2) i q(1)]) simp
  have t: "turnHasMoney r'"
    using assms(1) q same i
    by (auto simp: potInvariant_def turnHasMoney_def nth_list_update)
  have "potInvariant r'"
    using assms(1) bets same t by (simp add: potInvariant_def)
  thus ?thesis using a by simp
qed

lemma oneLeft_reached: "foldHand firstHand ''s2'' = Inr oneLeft"
  by code_simp



end
